theory Spec2Isabelle
  imports Main "HOL-Library.Sublist"
begin

section \<open>Texts, errors and dictionaries\<close>

text \<open>
  The validator (\<^verbatim>\<open>validator.py\<close>) works on Python strings. A text is modelled as a
  \<open>string\<close> holding its UTF-8 bytes: every character the validator gives a meaning to
  (brackets, quotes, slash, star, backslash, newline, hash, colon, letters, digits) is
  ASCII, and a byte of a longer UTF-8 sequence is never equal to one of them. The dash
  U+2014 of the messages is the three bytes \<open>0xE2 0x80 0x94\<close>. The scanner only
  compares characters with ASCII ones, so the model of the scanner is exact on every
  text; lengths, cases and character classes are those of Python on ASCII texts.

  A failed dictionary lookup raises \<^verbatim>\<open>KeyError\<close>; a function that looks a key up
  returns \<open>error + 'a\<close>, with \<open>Inl\<close> for the raised exception.
\<close>

datatype error = KeyError string

definition lookup :: "('k \<rightharpoonup> 'v) \<Rightarrow> ('k \<Rightarrow> string) \<Rightarrow> 'k \<Rightarrow> error + 'v" where
  "lookup d show_key k = (case d k of None \<Rightarrow> Inl (KeyError (show_key k)) | Some v \<Rightarrow> Inr v)"

definition newline :: char where
  "newline = CHR 0x0A"

definition backslash :: char where
  "backslash = CHR 0x5C"

definition apostrophe :: char where
  "apostrophe = CHR 0x27"

definition double_quote :: char where
  "double_quote = CHR 0x22"

definition backtick :: char where
  "backtick = CHR 0x60"

definition dash :: string where
  "dash = [CHR 0xE2, CHR 0x80, CHR 0x94]"

text \<open>\<^verbatim>\<open>str(n)\<close> for a line number: the decimal digits of \<open>n\<close>.\<close>

definition digit_char :: "nat \<Rightarrow> char" where
  "digit_char d = char_of (48 + d)"

fun str_nat :: "nat \<Rightarrow> string" where
  "str_nat n = (if n < 10 then [digit_char n] else str_nat (n div 10) @ [digit_char (n mod 10)])"

declare str_nat.simps [simp del]

section \<open>Sub-validator 4: bracket, brace and parenthesis balance\<close>

text \<open>The three dictionaries of \<^verbatim>\<open>validate_syntax\<close>.\<close>

definition openers :: "char \<rightharpoonup> char" where
  "openers = map_of [(CHR ''('', CHR '')''), (CHR ''{'', CHR ''}''), (CHR ''['', CHR '']'')]"

definition closers :: "char \<rightharpoonup> char" where
  "closers = map_of [(CHR '')'', CHR ''(''), (CHR ''}'', CHR ''{''), (CHR '']'', CHR ''['')]"

definition bracket_names :: "char \<rightharpoonup> string" where
  "bracket_names = map_of
     [(CHR ''('', ''opening parenthesis '' @ [apostrophe, CHR ''('', apostrophe]),
      (CHR '')'', ''closing parenthesis '' @ [apostrophe, CHR '')'', apostrophe]),
      (CHR ''{'', ''opening brace '' @ [apostrophe, CHR ''{'', apostrophe]),
      (CHR ''}'', ''closing brace '' @ [apostrophe, CHR ''}'', apostrophe]),
      (CHR ''['', ''opening bracket '' @ [apostrophe, CHR ''['', apostrophe]),
      (CHR '']'', ''closing bracket '' @ [apostrophe, CHR '']'', apostrophe])]"

definition char_key :: "char \<Rightarrow> string" where
  "char_key c = [c]"

text \<open>
  A stack entry is \<open>(opener_char, line_number)\<close>. The stack is a Python list used with
  \<^verbatim>\<open>append\<close>, \<^verbatim>\<open>stack[-1]\<close> and \<^verbatim>\<open>pop()\<close>: the top is the last element, and the
  final \<^verbatim>\<open>for\<close> loop reads it from the first element on.
\<close>

type_synonym entry = "char \<times> nat"

text \<open>The three messages, each an f-string of the source.\<close>

definition unexpected_msg :: "string \<Rightarrow> nat \<Rightarrow> char \<Rightarrow> string" where
  "unexpected_msg name line ch =
     ''SYNTAX_ERROR: Unexpected '' @ name @ '' on line '' @ str_nat line @ '' '' @
     dash @ '' no matching opener exists. '' @
     ''Check for an extra or misplaced '' @ [apostrophe, ch, apostrophe] @ ''.''"

definition mismatch_msg :: "string \<Rightarrow> nat \<Rightarrow> string \<Rightarrow> nat \<Rightarrow> string" where
  "mismatch_msg closer_name line opener_name opener_line =
     ''SYNTAX_ERROR: Mismatched brackets '' @ dash @ '' '' @ closer_name @ '' on '' @
     ''line '' @ str_nat line @ '' does not match '' @ opener_name @ '' '' @
     ''opened on line '' @ str_nat opener_line @ ''.''"

definition unclosed_msg :: "string \<Rightarrow> nat \<Rightarrow> char \<Rightarrow> string" where
  "unclosed_msg opener_name opener_line closer =
     ''SYNTAX_ERROR: Unclosed '' @ opener_name @ '' opened on '' @
     ''line '' @ str_nat opener_line @ '' '' @ dash @ '' missing closing '' @
     [apostrophe, closer, apostrophe] @ ''.''"

text \<open>
  The inner loop that skips a string literal, entered after the opening quote. It returns
  the text left after the literal and the line counter. A backslash that is not the last
  character skips the character after it, which is then never compared with the newline.
\<close>

function skip_string :: "char \<Rightarrow> string \<Rightarrow> nat \<Rightarrow> string \<times> nat" where
  "skip_string quote [] line = ([], line)"
| "skip_string quote (c # rest) line =
     (let line' = (if c = newline then line + 1 else line) in
      if c = backslash \<and> rest \<noteq> [] then skip_string quote (tl rest) line'
      else if c = quote then (rest, line')
      else skip_string quote rest line')"
  by pat_completeness auto
termination
  by (relation "measure (\<lambda>(quote, s, line). length s)") auto

text \<open>The loop of a \<^verbatim>\<open>//\<close> comment: it stops in front of the newline.\<close>

definition skip_line_comment :: "string \<Rightarrow> string" where
  "skip_line_comment s = dropWhile (\<lambda>c. c \<noteq> newline) s"

text \<open>
  The loop of a \<^verbatim>\<open>/* */\<close> comment, entered after the two opening characters. Its
  condition is \<^verbatim>\<open>i < length - 1\<close>: it never reads the last character of the text,
  which is left to the main loop.
\<close>

fun skip_block_comment :: "string \<Rightarrow> nat \<Rightarrow> string \<times> nat" where
  "skip_block_comment [] line = ([], line)"
| "skip_block_comment [c] line = ([c], line)"
| "skip_block_comment (c # d # rest) line =
     (let line' = (if c = newline then line + 1 else line) in
      if c = CHR ''*'' \<and> d = CHR ''/'' then (rest, line')
      else skip_block_comment (d # rest) line')"

text \<open>
  The bracket-matching block of the main loop, for a character \<open>ch\<close> read in code at
  line \<open>line\<close>: it returns the new stack and the new list of errors.
\<close>

definition bracket_step ::
  "char \<Rightarrow> nat \<Rightarrow> entry list \<Rightarrow> string list \<Rightarrow> error + (entry list \<times> string list)" where
  "bracket_step ch line stack errors =
     (if openers ch \<noteq> None then Inr (stack @ [(ch, line)], errors)
      else if closers ch \<noteq> None then
        (if stack = [] then
           (case lookup bracket_names char_key ch of
              Inl e \<Rightarrow> Inl e
            | Inr name \<Rightarrow> Inr (stack, errors @ [unexpected_msg name line ch]))
         else if Some (fst (last stack)) \<noteq> closers ch then
           (case last stack of (opener_char, opener_line) \<Rightarrow>
              (case lookup bracket_names char_key ch of
                 Inl e \<Rightarrow> Inl e
               | Inr closer_name \<Rightarrow>
                   (case lookup bracket_names char_key opener_char of
                      Inl e \<Rightarrow> Inl e
                    | Inr opener_name \<Rightarrow>
                        Inr (butlast stack,
                             errors @ [mismatch_msg closer_name line opener_name opener_line]))))
         else Inr (butlast stack, errors))
      else Inr (stack, errors))"

lemma skip_string_length: "length (fst (skip_string quote s line)) \<le> length s"
proof (induction quote s line rule: skip_string.induct)
  case (1 quote line)
  show ?case by simp
next
  case (2 quote c rest line)
  let ?line' = "if c = newline then line + 1 else line"
  show ?case
  proof (cases "c = backslash \<and> rest \<noteq> []")
    case True
    then have "length (fst (skip_string quote (tl rest) ?line')) \<le> length (tl rest)"
      using "2.IH"(1) [of ?line'] by simp
    with True show ?thesis by (simp add: Let_def)
  next
    case False
    show ?thesis
    proof (cases "c = quote")
      case True
      with False show ?thesis by (auto simp: Let_def)
    next
      case no_quote: False
      then have "length (fst (skip_string quote rest ?line')) \<le> length rest"
        using "2.IH"(2) [of ?line'] False by simp
      with False no_quote show ?thesis by (auto simp: Let_def)
    qed
  qed
qed

lemma skip_block_comment_length: "length (fst (skip_block_comment s line)) \<le> length s"
  by (induction s line rule: skip_block_comment.induct) (auto simp: Let_def)

lemma skip_line_comment_length: "length (skip_line_comment s) \<le> length s"
  by (simp add: skip_line_comment_def length_dropWhile_le)

text \<open>
  The main loop of \<^verbatim>\<open>validate_syntax\<close>, on the text from index \<open>i\<close> on. It returns
  the stack and the errors at the end of the pass.
\<close>

function scan ::
  "string \<Rightarrow> nat \<Rightarrow> entry list \<Rightarrow> string list \<Rightarrow> error + (entry list \<times> string list)" where
  "scan [] line stack errors = Inr (stack, errors)"
| "scan (ch # rest) line stack errors =
     (if ch = newline then scan rest (line + 1) stack errors
      else if ch \<in> {apostrophe, double_quote, backtick} then
        scan (fst (skip_string ch rest line)) (snd (skip_string ch rest line)) stack errors
      else if ch = CHR ''/'' \<and> rest \<noteq> [] \<and> hd rest = CHR ''/'' then
        scan (skip_line_comment (ch # rest)) line stack errors
      else if ch = CHR ''/'' \<and> rest \<noteq> [] \<and> hd rest = CHR ''*'' then
        scan (fst (skip_block_comment (tl rest) line))
             (snd (skip_block_comment (tl rest) line)) stack errors
      else
        (case bracket_step ch line stack errors of
           Inl e \<Rightarrow> Inl e
         | Inr (stack', errors') \<Rightarrow> scan rest line stack' errors'))"
  by pat_completeness auto
termination
proof (relation "measure (\<lambda>(s, line, stack, errors). length s)", goal_cases)
  case 1
  show ?case by simp
next
  case (2 ch rest line stack errors)
  show ?case by simp
next
  case (3 ch rest line stack errors)
  show ?case using skip_string_length [of ch rest line] by simp
next
  case (4 ch rest line stack errors)
  then show ?case using skip_line_comment_length [of rest]
    by (simp add: skip_line_comment_def)
next
  case (5 ch rest line stack errors)
  then show ?case using skip_block_comment_length [of "tl rest" line]
    by (cases rest) auto
next
  case (6 ch rest line stack errors x2 x y)
  show ?case by simp
qed

declare scan.simps [simp del]

text \<open>The loop over the entries left on the stack, from the first (oldest) on.\<close>

fun unclosed_errors :: "entry list \<Rightarrow> error + string list" where
  "unclosed_errors [] = Inr []"
| "unclosed_errors ((opener_char, opener_line) # stack) =
     (case lookup bracket_names char_key opener_char of
        Inl e \<Rightarrow> Inl e
      | Inr name \<Rightarrow>
          (case lookup openers char_key opener_char of
             Inl e \<Rightarrow> Inl e
           | Inr closer \<Rightarrow>
               (case unclosed_errors stack of
                  Inl e \<Rightarrow> Inl e
                | Inr msgs \<Rightarrow> Inr (unclosed_msg name opener_line closer # msgs))))"

definition validate_syntax :: "string \<Rightarrow> error + string list" where
  "validate_syntax code =
     (case scan code 1 [] [] of
        Inl e \<Rightarrow> Inl e
      | Inr (stack, errors) \<Rightarrow>
          (case unclosed_errors stack of
             Inl e \<Rightarrow> Inl e
           | Inr msgs \<Rightarrow> Inr (errors @ msgs)))"

section \<open>Character classes and case\<close>

text \<open>
  \<^verbatim>\<open>str.lower\<close>, \<^verbatim>\<open>str.strip\<close> and the classes \<^verbatim>\<open>\w\<close> and \<^verbatim>\<open>\s\<close> of the
  \<^verbatim>\<open>re\<close> module, on ASCII: a byte from \<open>0x80\<close> on is left as it is by
  \<open>str_lower\<close> and is neither a word character nor a space. Python's own functions
  work on code points and know the letters and spaces beyond ASCII: there \<^verbatim>\<open>\w\<close> and
  \<^verbatim>\<open>\b\<close> count a letter such as U+00E9 as a word character, \<^verbatim>\<open>\s\<close> and
  \<^verbatim>\<open>strip\<close> count U+00A0 and U+0085 as spaces, and \<^verbatim>\<open>lower\<close> and
  \<^verbatim>\<open>re.IGNORECASE\<close> fold letters such as U+212A. The four definitions below, and the
  checkers built on them, agree with the program on ASCII texts only.
\<close>

definition in_range :: "char \<Rightarrow> char \<Rightarrow> char \<Rightarrow> bool" where
  "in_range lo hi c = (of_char lo \<le> (of_char c :: nat) \<and> (of_char c :: nat) \<le> of_char hi)"

definition lower_char :: "char \<Rightarrow> char" where
  "lower_char c = (if in_range CHR ''A'' CHR ''Z'' c then char_of (of_char c + (32::nat)) else c)"

definition str_lower :: "string \<Rightarrow> string" where
  "str_lower s = map lower_char s"

definition is_word :: "char \<Rightarrow> bool" where
  "is_word c = (in_range CHR ''a'' CHR ''z'' c \<or> in_range CHR ''A'' CHR ''Z'' c \<or>
                in_range CHR ''0'' CHR ''9'' c \<or> c = CHR ''_'')"

definition is_space :: "char \<Rightarrow> bool" where
  "is_space c = (c = CHR '' '' \<or> in_range (CHR 0x09) (CHR 0x0D) c \<or>
                 in_range (CHR 0x1C) (CHR 0x1F) c)"

definition str_strip :: "string \<Rightarrow> string" where
  "str_strip s = rev (dropWhile is_space (rev (dropWhile is_space s)))"

section \<open>Regular expressions\<close>

text \<open>
  The patterns of the validator, as syntax trees, and a backtracking matcher in the order
  of the \<^verbatim>\<open>re\<close> module: a repetition is greedy and gives characters back one at a
  time, an alternation tries its branches from left to right. Every repetition of the
  validator's patterns is over one character class.
\<close>

datatype cls =
    Lit char
  | Ranges "(char \<times> char) list"
  | NotChar char
  | WordCh
  | SpaceCh

datatype regex =
    Eps
  | Ch cls
  | Star cls
  | Plus cls
  | Repeat nat nat cls
  | WordBoundary
  | Seq regex regex
  | Alt regex regex
  | Opt regex
  | Group regex

text \<open>
  \<open>ic\<close> is the flag \<^verbatim>\<open>re.IGNORECASE\<close>. The only pattern with a range of characters,
  the one of the hex literals, is compiled without the flag.
\<close>

fun cls_match :: "bool \<Rightarrow> cls \<Rightarrow> char \<Rightarrow> bool" where
  "cls_match ic (Lit a) c = (if ic then lower_char c = lower_char a else c = a)"
| "cls_match ic (Ranges rs) c = (\<exists>(lo, hi) \<in> set rs. in_range lo hi c)"
| "cls_match ic (NotChar a) c = (c \<noteq> a)"
| "cls_match ic WordCh c = is_word c"
| "cls_match ic SpaceCh c = is_space c"

text \<open>
  A position of the matcher: the character before it (none at the start of the text), the
  text from it on, and the texts of the groups closed so far.
\<close>

record mstate =
  prev_char :: "char option"
  remaining :: string
  groups :: "string list"

definition advance :: "mstate \<Rightarrow> nat \<Rightarrow> mstate" where
  "advance st n =
     (if n = 0 then st
      else st\<lparr>prev_char := Some (remaining st ! (n - 1)), remaining := drop n (remaining st)\<rparr>)"

definition at_boundary :: "mstate \<Rightarrow> bool" where
  "at_boundary st =
     ((case prev_char st of None \<Rightarrow> False | Some c \<Rightarrow> is_word c) \<noteq>
      (case remaining st of [] \<Rightarrow> False | c # _ \<Rightarrow> is_word c))"

text \<open>
  \<open>greedy ic k lo hi st\<close>: the positions after \<open>hi\<close> down to \<open>lo\<close> characters of
  class \<open>k\<close>, the longest first, where \<open>hi\<close> is cut to the number of such characters
  at the position.
\<close>

definition greedy :: "bool \<Rightarrow> cls \<Rightarrow> nat \<Rightarrow> nat \<Rightarrow> mstate \<Rightarrow> mstate list" where
  "greedy ic k lo hi st =
     (let run = length (takeWhile (cls_match ic k) (remaining st))
      in map (advance st) (rev [lo ..< Suc (min hi run)]))"

text \<open>All the ends of a match of the pattern from a position, in the matcher's order.\<close>

fun rmatch :: "bool \<Rightarrow> regex \<Rightarrow> mstate \<Rightarrow> mstate list" where
  "rmatch ic Eps st = [st]"
| "rmatch ic (Ch k) st = greedy ic k 1 1 st"
| "rmatch ic (Star k) st = greedy ic k 0 (length (remaining st)) st"
| "rmatch ic (Plus k) st = greedy ic k 1 (length (remaining st)) st"
| "rmatch ic (Repeat lo hi k) st = greedy ic k lo hi st"
| "rmatch ic WordBoundary st = (if at_boundary st then [st] else [])"
| "rmatch ic (Seq r s) st = concat (map (rmatch ic s) (rmatch ic r st))"
| "rmatch ic (Alt r s) st = rmatch ic r st @ rmatch ic s st"
| "rmatch ic (Opt r) st = rmatch ic r st @ [st]"
| "rmatch ic (Group r) st =
     map (\<lambda>st'. st'\<lparr>groups := groups st' @
                          [take (length (remaining st) - length (remaining st')) (remaining st)]\<rparr>)
         (rmatch ic r st)"

text \<open>\<^verbatim>\<open>pattern.search(text)\<close> as a truth value: is there a match at some position.\<close>

fun search_from :: "bool \<Rightarrow> regex \<Rightarrow> char option \<Rightarrow> string \<Rightarrow> bool" where
  "search_from ic r prev [] = (rmatch ic r \<lparr>prev_char = prev, remaining = [], groups = []\<rparr> \<noteq> [])"
| "search_from ic r prev (c # cs) =
     (rmatch ic r \<lparr>prev_char = prev, remaining = c # cs, groups = []\<rparr> \<noteq> [] \<or>
      search_from ic r (Some c) cs)"

definition re_search :: "bool \<Rightarrow> regex \<Rightarrow> string \<Rightarrow> bool" where
  "re_search ic r s = search_from ic r None s"

text \<open>
  \<^verbatim>\<open>pattern.finditer(text)\<close>: the matches from left to right, each the first one the
  matcher finds at the leftmost position that has one, the next search starting where the
  match ended. A match is \<open>(group(0), [group(1), ...])\<close>. \<open>skip\<close> counts the characters of
  the last match that are still to be passed. No pattern of the validator matches the empty
  text.
\<close>

fun find_from :: "bool \<Rightarrow> regex \<Rightarrow> char option \<Rightarrow> string \<Rightarrow> nat \<Rightarrow> (string \<times> string list) list" where
  "find_from ic r prev [] skip = []"
| "find_from ic r prev (c # cs) skip =
     (if 0 < skip then find_from ic r (Some c) cs (skip - 1)
      else
        (case rmatch ic r \<lparr>prev_char = prev, remaining = c # cs, groups = []\<rparr> of
           [] \<Rightarrow> find_from ic r (Some c) cs 0
         | st # _ \<Rightarrow>
             (let n = length (c # cs) - length (remaining st)
              in (take n (c # cs), groups st) # find_from ic r (Some c) cs (n - 1))))"

definition finditer :: "bool \<Rightarrow> regex \<Rightarrow> string \<Rightarrow> (string \<times> string list) list" where
  "finditer ic r s = find_from ic r None s 0"

definition lits :: "string \<Rightarrow> regex" where
  "lits s = foldr (\<lambda>c r. Seq (Ch (Lit c)) r) s Eps"

definition seqs :: "regex list \<Rightarrow> regex" where
  "seqs rs = foldr Seq rs Eps"

fun alts :: "regex list \<Rightarrow> regex" where
  "alts [] = Eps"
| "alts [r] = r"
| "alts (r # rs) = Alt r (alts rs)"

section \<open>Constants\<close>

definition SAFE_CSS_KEYWORDS :: "string list" where
  "SAFE_CSS_KEYWORDS =
     [''transparent'', ''inherit'', ''currentcolor'', ''initial'', ''unset'', ''none'']"

text \<open>
  \<^verbatim>\<open>_NAMED_COLORS\<close> is a frozenset, joined into an alternation in its iteration order;
  the list has the order of the source text.
\<close>

definition NAMED_COLORS :: "string list" where
  "NAMED_COLORS =
     [''red'', ''blue'', ''green'', ''yellow'', ''orange'', ''pink'', ''purple'',
      ''brown'', ''cyan'', ''magenta'', ''lime'', ''teal'', ''maroon'', ''navy'',
      ''olive'', ''aqua'', ''fuchsia'', ''coral'', ''crimson'', ''gold'',
      ''indigo'', ''khaki'', ''lavender'', ''salmon'', ''sienna'', ''tan'',
      ''tomato'', ''turquoise'', ''violet'', ''wheat'']"

section \<open>Sub-validator 1: design-token presence\<close>

text \<open>
  The token set is the dictionary \<^verbatim>\<open>tokens: Dict[str, str]\<close>; \<^verbatim>\<open>tokens[k]\<close> raises
  \<^verbatim>\<open>KeyError\<close> on a missing key. \<^verbatim>\<open>a in b\<close> on strings is \<open>sublist a b\<close>.
\<close>

type_synonym tokens = "string \<rightharpoonup> string"

definition tokens_get :: "tokens \<Rightarrow> string \<Rightarrow> error + string" where
  "tokens_get tokens k = lookup tokens (\<lambda>k. k) k"

definition missing_primary_msg :: "string \<Rightarrow> string" where
  "missing_primary_msg primary =
     ''MISSING_PRIMARY_COLOR: The primary colour '' @ [apostrophe] @ primary @ [apostrophe] @
     '' was not found in the generated component. '' @
     ''It must be applied to at least one interactive or accent element.''"

definition missing_radius_msg :: "string \<Rightarrow> string" where
  "missing_radius_msg radius =
     ''MISSING_BORDER_RADIUS: The design-system border-radius '' @
     [apostrophe] @ radius @ [apostrophe] @
     '' was not found in the component styles. '' @
     ''Apply it to cards, inputs, and buttons.''"

definition missing_font_msg :: "string \<Rightarrow> string" where
  "missing_font_msg font =
     ''MISSING_FONT_FAMILY: The design-system font-family '' @
     [apostrophe] @ font @ [apostrophe] @
     '' was not found in the component styles. '' @
     ''Set font-family: '' @ [apostrophe] @ font @ [apostrophe] @
     '', sans-serif on the host or wrapper element.''"

definition validate_design_tokens :: "string \<Rightarrow> tokens \<Rightarrow> error + string list" where
  "validate_design_tokens code tokens =
     (case tokens_get tokens ''primary_color'' of
        Inl e \<Rightarrow> Inl e
      | Inr primary_color \<Rightarrow>
          (let errs1 = (if \<not> sublist (str_lower primary_color) (str_lower code)
                        then [missing_primary_msg primary_color] else [])
           in case tokens_get tokens ''border_radius'' of
                Inl e \<Rightarrow> Inl e
              | Inr radius \<Rightarrow>
                  (let errs2 = errs1 @ (if \<not> sublist radius code
                                        then [missing_radius_msg radius] else [])
                   in case tokens_get tokens ''font_family'' of
                        Inl e \<Rightarrow> Inl e
                      | Inr font \<Rightarrow>
                          Inr (errs2 @ (if \<not> sublist (str_lower font) (str_lower code)
                                        then [missing_font_msg font] else [])))))"

section \<open>Internal helper: hex normalisation\<close>

text \<open>
  \<^verbatim>\<open>_normalise_hex\<close>: a text of four characters after lowering has its characters 1, 2
  and 3 doubled behind a hash sign; any other text is returned lowered.
\<close>

definition normalise_hex :: "string \<Rightarrow> string" where
  "normalise_hex h0 =
     (let h = str_lower h0
      in if length h = 4
         then [CHR ''#''] @ [h ! 1, h ! 1] @ [h ! 2, h ! 2] @ [h ! 3, h ! 3]
         else h)"

section \<open>Sub-validator 2: strict colour enforcement\<close>

definition functional_pattern :: regex where
  "functional_pattern =
     seqs [WordBoundary,
           Group (alts [Seq (lits ''rgb'') (Opt (Ch (Lit CHR ''a''))),
                        Seq (lits ''hsl'') (Opt (Ch (Lit CHR ''a''))),
                        lits ''hwb'']),
           Star SpaceCh,
           Ch (Lit CHR ''('')]"

definition hex_digit :: cls where
  "hex_digit = Ranges [(CHR ''0'', CHR ''9''), (CHR ''a'', CHR ''f''), (CHR ''A'', CHR ''F'')]"

definition hex_pattern :: regex where
  "hex_pattern = seqs [Ch (Lit CHR ''#''), Repeat 3 8 hex_digit, WordBoundary]"

definition named_pattern :: regex where
  "named_pattern =
     seqs [Ch (Lit CHR '':''), Star SpaceCh, Group (alts (map lits NAMED_COLORS)), WordBoundary]"

definition colour_format_msg :: "string \<Rightarrow> string \<Rightarrow> string" where
  "colour_format_msg primary secondary =
     ''UNAUTHORIZED_COLOR_FORMAT: Functional colour notations (rgba, rgb, '' @
     ''hsl, hsla, hwb) are not permitted. '' @
     ''Use only the exact hex tokens defined in the design system: '' @
     primary @ '' and '' @ secondary @ ''.''"

definition hex_colour_msg :: "string \<Rightarrow> string \<Rightarrow> string \<Rightarrow> string" where
  "hex_colour_msg matched primary secondary =
     ''UNAUTHORISED_HEX_COLOR: '' @ [apostrophe] @ matched @ [apostrophe] @
     '' is not in the design '' @
     ''system. Approved hex values: '' @
     primary @ '', '' @ secondary @ '', '' @
     ''#ffffff, #000000.''"

definition named_colour_msg :: "string \<Rightarrow> string" where
  "named_colour_msg name =
     ''UNAUTHORISED_NAMED_COLOR: Named CSS colour '' @ [apostrophe] @ name @ [apostrophe] @
     '' is not permitted. Use only design-system hex tokens.''"

text \<open>
  The 3-digit shorthand that the loop over \<^verbatim>\<open>list(approved_hex)\<close> adds for one
  approved value \<open>h\<close>, if any.
\<close>

definition shorthand_of :: "string \<Rightarrow> string list" where
  "shorthand_of h =
     (if length h = 7 then
        (let r = take 2 (drop 1 h); g = take 2 (drop 3 h); b = take 2 (drop 5 h)
         in if r ! 0 = r ! 1 \<and> g ! 0 = g ! 1 \<and> b ! 0 = b ! 1
            then [[CHR ''#'', r ! 0, g ! 0, b ! 0]] else [])
      else [])"

text \<open>The members of the set \<^verbatim>\<open>approved_hex\<close> after that loop.\<close>

definition approved_hex :: "string \<Rightarrow> string \<Rightarrow> string list" where
  "approved_hex primary secondary =
     (let base = [str_lower primary, str_lower secondary,
                  ''#ffffff'', ''#fff'', ''#000000'', ''#000'']
      in base @ concat (map shorthand_of base))"

definition normalised_approved :: "string \<Rightarrow> string \<Rightarrow> string set" where
  "normalised_approved primary secondary = set (map normalise_hex (approved_hex primary secondary))"

text \<open>
  The loop over the hex literals of the source. Its state is the set
  \<^verbatim>\<open>seen_violations\<close> and the errors appended so far; \<open>found\<close> is the lowered text of the
  match, and the message quotes the text as matched.
\<close>

fun hex_loop ::
  "string set \<Rightarrow> string \<Rightarrow> string \<Rightarrow> string list \<Rightarrow> string list \<Rightarrow> string list \<Rightarrow> string list" where
  "hex_loop approved primary secondary [] seen_violations errs = errs"
| "hex_loop approved primary secondary (group0 # matches) seen_violations errs =
     (let found = str_lower group0; normalised = normalise_hex found
      in if normalised \<notin> approved \<and> found \<notin> set seen_violations
         then hex_loop approved primary secondary matches (seen_violations @ [found])
                (errs @ [hex_colour_msg group0 primary secondary])
         else hex_loop approved primary secondary matches seen_violations errs)"

text \<open>The loop over the matches of the named-colour pattern; \<open>group1\<close> is the keyword.\<close>

fun named_loop :: "string list \<Rightarrow> string list \<Rightarrow> string list" where
  "named_loop [] errs = errs"
| "named_loop (group1 # matches) errs =
     (let colour_name = str_lower group1
      in if colour_name \<notin> set SAFE_CSS_KEYWORDS
         then named_loop matches (errs @ [named_colour_msg group1])
         else named_loop matches errs)"

definition validate_colors :: "string \<Rightarrow> tokens \<Rightarrow> error + string list" where
  "validate_colors code tokens =
     (case (if re_search True functional_pattern code then
              (case tokens_get tokens ''primary_color'' of
                 Inl e \<Rightarrow> Inl e
               | Inr primary \<Rightarrow>
                   (case tokens_get tokens ''secondary_color'' of
                      Inl e \<Rightarrow> Inl e
                    | Inr secondary \<Rightarrow> Inr [colour_format_msg primary secondary]))
            else Inr [])
      of
        Inl e \<Rightarrow> Inl e
      | Inr errs1 \<Rightarrow>
          (case tokens_get tokens ''primary_color'' of
             Inl e \<Rightarrow> Inl e
           | Inr primary \<Rightarrow>
               (case tokens_get tokens ''secondary_color'' of
                  Inl e \<Rightarrow> Inl e
                | Inr secondary \<Rightarrow>
                    (let errs2 = hex_loop (normalised_approved primary secondary) primary secondary
                                   (map fst (finditer False hex_pattern code)) [] errs1
                     in Inr (named_loop (map (\<lambda>m. snd m ! 0) (finditer True named_pattern code))
                               errs2)))))"

section \<open>Sub-validator 3: structural integrity\<close>

definition export_class_pattern :: regex where
  "export_class_pattern =
     seqs [WordBoundary, lits ''export'', Plus SpaceCh, lits ''class'', WordBoundary]"

text \<open>The four patterns of \<^verbatim>\<open>ts_member_patterns\<close>, each with its flag.\<close>

definition ts_member_patterns :: "(bool \<times> regex) list" where
  "ts_member_patterns =
     [(True, seqs [WordBoundary,
                   Group (alts [lits ''public'', lits ''private'', lits ''protected'']),
                   Plus SpaceCh, Plus WordCh]),
      (False, seqs [WordBoundary, Plus WordCh, Star SpaceCh, Ch (Lit CHR '':''), Star SpaceCh,
                    Group (alts (map lits
                      [''string'', ''number'', ''boolean'', ''any'', ''void'', ''object'',
                       ''Array'', ''Observable'', ''Subject'', ''EventEmitter''])),
                    WordBoundary]),
      (False, seqs [WordBoundary, Plus WordCh, Star SpaceCh, Ch (Lit CHR ''(''),
                    Star (NotChar CHR '')''), Ch (Lit CHR '')''), Star SpaceCh,
                    Opt (seqs [Ch (Lit CHR '':''), Star SpaceCh, Plus WordCh, Star SpaceCh]),
                    Ch (Lit CHR ''{'')]),
      (False, seqs [WordBoundary,
                    Group (alts (map lits
                      [''constructor'', ''ngOnInit'', ''ngOnDestroy'', ''ngOnChanges'',
                       ''ngAfterViewInit''])),
                    WordBoundary])]"

definition missing_decorator_msg :: string where
  "missing_decorator_msg =
     ''INCOMPLETE_STRUCTURE: Missing @Component decorator. '' @
     ''The generated output must be a valid Angular standalone component.''"

definition missing_class_msg :: string where
  "missing_class_msg =
     ''INCOMPLETE_STRUCTURE: Missing '' @ [apostrophe] @ ''export class'' @ [apostrophe] @
     '' declaration. '' @
     ''The component class must be exported for Angular to register it.''"

definition truncated_msg :: string where
  "truncated_msg =
     ''INCOMPLETE_STRUCTURE: Component source does not end with '' @
     [apostrophe, CHR ''}'', apostrophe] @ ''. '' @
     ''The class body may be truncated or improperly closed.''"

definition no_member_msg :: string where
  "no_member_msg =
     ''INCOMPLETE_STRUCTURE: No TypeScript class members (typed properties '' @
     ''or methods) detected inside the component class body. '' @
     ''The class appears to be empty.''"

definition validate_structure :: "string \<Rightarrow> string list" where
  "validate_structure code =
     (let errs1 = (if \<not> sublist ''@Component'' code then [missing_decorator_msg] else []);
          errs2 = errs1 @ (if \<not> re_search False export_class_pattern code
                           then [missing_class_msg] else []);
          stripped = str_strip code;
          errs3 = errs2 @ (if stripped \<noteq> [] \<and> last stripped \<noteq> CHR ''}''
                           then [truncated_msg] else [])
      in if re_search False export_class_pattern code then
           (let has_member = list_ex (\<lambda>(ic, p). re_search ic p code) ts_member_patterns
            in errs3 @ (if \<not> has_member then [no_member_msg] else []))
         else errs3)"

section \<open>Warning-only check\<close>

definition spacing_msg :: "string \<Rightarrow> string" where
  "spacing_msg spacing =
     ''SPACING_SUGGESTION: The spacing token '' @ [apostrophe] @ spacing @ [apostrophe] @
     '' was not detected. '' @
     ''Consider applying it to padding/margin for visual consistency.''"

text \<open>\<^verbatim>\<open>tokens.get("spacing", "")\<close> gives the empty text for a missing key.\<close>

definition warn_spacing_token :: "string \<Rightarrow> tokens \<Rightarrow> string list" where
  "warn_spacing_token code tokens =
     (let spacing = (case tokens ''spacing'' of None \<Rightarrow> [] | Some v \<Rightarrow> v)
      in if spacing \<noteq> [] \<and> \<not> sublist spacing code then [spacing_msg spacing] else [])"

section \<open>The top-level validator\<close>

record report =
  is_valid :: bool
  errors :: "string list"
  warnings :: "string list"

definition validate_component :: "string \<Rightarrow> tokens \<Rightarrow> error + report" where
  "validate_component code tokens =
     (case validate_design_tokens code tokens of
        Inl e \<Rightarrow> Inl e
      | Inr token_errs \<Rightarrow>
          (case validate_colors code tokens of
             Inl e \<Rightarrow> Inl e
           | Inr colour_errs \<Rightarrow>
               (let structure_errs = validate_structure code
                in case validate_syntax code of
                     Inl e \<Rightarrow> Inl e
                   | Inr syntax_errs \<Rightarrow>
                       (let errs = [] @ token_errs @ colour_errs @ structure_errs @ syntax_errs;
                            warns = [] @ warn_spacing_token code tokens
                        in Inr \<lparr>is_valid = (length errs = 0), errors = errs,
                                 warnings = warns\<rparr>))))"

section \<open>Invariants and example data\<close>

text \<open>Every entry of the stack holds an opening bracket.\<close>

definition openers_only :: "entry list \<Rightarrow> bool" where
  "openers_only stack = (\<forall>e \<in> set stack. openers (fst e) \<noteq> None)"

text \<open>
  The lines recorded on the stack do not decrease from the first entry to the last, and
  none is beyond the line counter.
\<close>

definition lines_ok :: "nat \<Rightarrow> entry list \<Rightarrow> bool" where
  "lines_ok line stack = (sorted (map snd stack) \<and> (\<forall>e \<in> set stack. snd e \<le> line))"

text \<open>The message of the final loop for one entry, if its two lookups succeed.\<close>

definition entry_msg :: "entry \<Rightarrow> string option" where
  "entry_msg e =
     (case bracket_names (fst e) of
        None \<Rightarrow> None
      | Some name \<Rightarrow>
          (case openers (fst e) of
             None \<Rightarrow> None
           | Some closer \<Rightarrow> Some (unclosed_msg name (snd e) closer)))"

text \<open>The five keys of the token set that the program reads.\<close>

definition required_keys :: "string list" where
  "required_keys =
     [''primary_color'', ''secondary_color'', ''border_radius'', ''font_family'', ''spacing'']"

definition example_tokens :: tokens where
  "example_tokens =
     [''primary_color'' \<mapsto> ''#6366f1'', ''secondary_color'' \<mapsto> ''#a855f7'',
      ''border_radius'' \<mapsto> ''8px'', ''font_family'' \<mapsto> ''Inter'', ''spacing'' \<mapsto> ''16px'']"

text \<open>A token set without the spacing token, and a source that passes every check.\<close>

definition tokens_without_spacing :: tokens where
  "tokens_without_spacing =
     [''primary_color'' \<mapsto> ''#6366f1'', ''secondary_color'' \<mapsto> ''#a855f7'',
      ''border_radius'' \<mapsto> ''8px'', ''font_family'' \<mapsto> ''Inter'']"

definition compliant_source :: string where
  "compliant_source = ''@Component #6366f1 8px Inter export class A { ngOnInit() {} }''"

text \<open>The eight tags of the hard failures.\<close>

definition error_tags :: "string list" where
  "error_tags =
     [''MISSING_PRIMARY_COLOR'', ''MISSING_BORDER_RADIUS'', ''MISSING_FONT_FAMILY'',
      ''UNAUTHORIZED_COLOR_FORMAT'', ''UNAUTHORISED_HEX_COLOR'', ''UNAUTHORISED_NAMED_COLOR'',
      ''INCOMPLETE_STRUCTURE'', ''SYNTAX_ERROR'']"

definition tagged :: "string \<Rightarrow> bool" where
  "tagged msg = list_ex (\<lambda>tag. prefix (tag @ '':'') msg) error_tags"

text \<open>
  The hex literals that the loop of \<^verbatim>\<open>validate_colors\<close> reports, as matched, given
  the lowered texts already in \<^verbatim>\<open>seen_violations\<close>.
\<close>

fun reported_literals :: "string set \<Rightarrow> string list \<Rightarrow> string list \<Rightarrow> string list" where
  "reported_literals approved [] seen_violations = []"
| "reported_literals approved (group0 # matches) seen_violations =
     (if normalise_hex (str_lower group0) \<notin> approved \<and> str_lower group0 \<notin> set seen_violations
      then group0 # reported_literals approved matches (seen_violations @ [str_lower group0])
      else reported_literals approved matches seen_violations)"

section \<open>The scanner never raises\<close>

lemma closer_has_name: "closers ch \<noteq> None \<Longrightarrow> \<exists>name. bracket_names ch = Some name"
  by (simp add: closers_def bracket_names_def split: if_splits)

lemma opener_has_name: "openers ch \<noteq> None \<Longrightarrow> \<exists>name. bracket_names ch = Some name"
  by (simp add: openers_def bracket_names_def split: if_splits)

lemma openers_only_butlast: "openers_only stack \<Longrightarrow> openers_only (butlast stack)"
  by (auto simp: openers_only_def dest: in_set_butlastD)

lemma openers_only_last: "openers_only stack \<Longrightarrow> stack \<noteq> [] \<Longrightarrow> openers (fst (last stack)) \<noteq> None"
  by (simp add: openers_only_def)

lemma bracket_step_returns:
  assumes "openers_only stack"
  shows "\<exists>stack' new. bracket_step ch line stack errs = Inr (stack', errs @ new) \<and>
           openers_only stack' \<and> (\<forall>m \<in> set new. prefix ''SYNTAX_ERROR:'' m)"
proof (cases "openers ch \<noteq> None")
  case True
  then have "bracket_step ch line stack errs = Inr (stack @ [(ch, line)], errs @ [])"
    by (simp add: bracket_step_def)
  moreover have "openers_only (stack @ [(ch, line)])"
    using assms True by (auto simp: openers_only_def)
  ultimately show ?thesis by fastforce
next
  case no_opener: False
  show ?thesis
  proof (cases "closers ch \<noteq> None")
    case False
    with no_opener have "bracket_step ch line stack errs = Inr (stack, errs @ [])"
      by (simp add: bracket_step_def)
    with assms show ?thesis by fastforce
  next
    case True
    then obtain cname where cname: "bracket_names ch = Some cname"
      using closer_has_name by blast
    show ?thesis
    proof (cases "stack = []")
      case True
      with no_opener \<open>closers ch \<noteq> None\<close> cname
      have "bracket_step ch line stack errs = Inr (stack, errs @ [unexpected_msg cname line ch])"
        by (simp add: bracket_step_def lookup_def)
      moreover have "prefix ''SYNTAX_ERROR:'' (unexpected_msg cname line ch)"
        by (simp add: unexpected_msg_def)
      ultimately show ?thesis using assms by fastforce
    next
      case nonempty: False
      show ?thesis
      proof (cases "Some (fst (last stack)) \<noteq> closers ch")
        case False
        with no_opener \<open>closers ch \<noteq> None\<close> nonempty
        have "bracket_step ch line stack errs = Inr (butlast stack, errs @ [])"
          by (simp add: bracket_step_def)
        with assms openers_only_butlast show ?thesis by fastforce
      next
        case True
        obtain oc ol where top: "last stack = (oc, ol)"
          by (cases "last stack")
        obtain oname where oname: "bracket_names oc = Some oname"
          using openers_only_last [OF assms nonempty] opener_has_name top by fastforce
        with True no_opener \<open>closers ch \<noteq> None\<close> nonempty cname top
        have "bracket_step ch line stack errs =
                Inr (butlast stack,
                     errs @ [mismatch_msg cname line oname (snd (last stack))])"
          by (simp add: bracket_step_def lookup_def)
        moreover have "prefix ''SYNTAX_ERROR:'' (mismatch_msg cname line oname (snd (last stack)))"
          by (simp add: mismatch_msg_def)
        ultimately show ?thesis using assms openers_only_butlast by fastforce
      qed
    qed
  qed
qed

lemma scan_returns:
  "openers_only stack \<Longrightarrow>
   \<exists>stack' new. scan s line stack errs = Inr (stack', errs @ new) \<and>
      openers_only stack' \<and> (\<forall>m \<in> set new. prefix ''SYNTAX_ERROR:'' m)"
proof (induction s line stack errs rule: scan.induct)
  case (1 line stack errs)
  then show ?case by (simp add: scan.simps)
next
  case (2 ch rest line stack errs)
  show ?case
  proof (cases "ch = newline")
    case True
    with 2 show ?thesis by (simp add: scan.simps)
  next
    case not_nl: False
    show ?thesis
    proof (cases "ch \<in> {apostrophe, double_quote, backtick}")
      case True
      with 2 not_nl show ?thesis by (simp add: scan.simps(2))
    next
      case not_quote: False
      show ?thesis
      proof (cases "ch = CHR ''/'' \<and> rest \<noteq> [] \<and> hd rest = CHR ''/''")
        case True
        with 2 not_nl not_quote show ?thesis by (simp add: scan.simps(2))
      next
        case not_line: False
        show ?thesis
        proof (cases "ch = CHR ''/'' \<and> rest \<noteq> [] \<and> hd rest = CHR ''*''")
          case True
          with 2 not_nl not_quote not_line show ?thesis by (simp add: scan.simps(2))
        next
          case not_block: False
          obtain stack1 new1 where step: "bracket_step ch line stack errs = Inr (stack1, errs @ new1)"
            and inv1: "openers_only stack1" and new1: "\<forall>m \<in> set new1. prefix ''SYNTAX_ERROR:'' m"
            using bracket_step_returns [OF "2.prems"] by blast
          obtain stack2 new2 where rec: "scan rest line stack1 (errs @ new1) = Inr (stack2, (errs @ new1) @ new2)"
            and inv2: "openers_only stack2" and new2: "\<forall>m \<in> set new2. prefix ''SYNTAX_ERROR:'' m"
            using "2.IH"(5) [OF not_nl not_quote not_line not_block step refl inv1] by blast
          have "scan (ch # rest) line stack errs = Inr (stack2, errs @ (new1 @ new2))"
            using not_nl not_quote not_line not_block step rec by (auto simp add: scan.simps(2))
          with inv2 new1 new2 show ?thesis by fastforce
        qed
      qed
    qed
  qed
qed

lemma unclosed_errors_returns:
  "openers_only stack \<Longrightarrow>
   \<exists>msgs. unclosed_errors stack = Inr msgs \<and> map entry_msg stack = map Some msgs \<and>
      (\<forall>m \<in> set msgs. prefix ''SYNTAX_ERROR:'' m)"
proof (induction stack)
  case Nil
  then show ?case by simp
next
  case (Cons e stack)
  obtain c l where e: "e = (c, l)" by (cases e)
  from Cons.prems have op: "openers c \<noteq> None" and rest: "openers_only stack"
    by (simp_all add: openers_only_def e)
  obtain name where name: "bracket_names c = Some name"
    using opener_has_name [OF op] by blast
  obtain closer where closer: "openers c = Some closer"
    using op by blast
  obtain msgs where msgs: "unclosed_errors stack = Inr msgs"
    "map entry_msg stack = map Some msgs" "\<forall>m \<in> set msgs. prefix ''SYNTAX_ERROR:'' m"
    using Cons.IH [OF rest] by blast
  have "unclosed_errors (e # stack) = Inr (unclosed_msg name l closer # msgs)"
    using e name closer msgs(1) by (simp add: lookup_def)
  moreover have "entry_msg e = Some (unclosed_msg name l closer)"
    using e name closer by (simp add: entry_msg_def)
  moreover have "prefix ''SYNTAX_ERROR:'' (unclosed_msg name l closer)"
    by (simp add: unclosed_msg_def)
  ultimately show ?case using msgs(2,3) by simp
qed

lemma validate_syntax_returns:
  "\<exists>stack pass_errs msgs.
     scan code 1 [] [] = Inr (stack, pass_errs) \<and> unclosed_errors stack = Inr msgs \<and>
     validate_syntax code = Inr (pass_errs @ msgs) \<and> openers_only stack \<and>
     map entry_msg stack = map Some msgs \<and>
     (\<forall>m \<in> set (pass_errs @ msgs). prefix ''SYNTAX_ERROR:'' m)"
proof -
  have "openers_only []" by (simp add: openers_only_def)
  from scan_returns [OF this, of code 1 "[]"]
  obtain stack pass_errs where sc: "scan code 1 [] [] = Inr (stack, pass_errs)"
    and inv: "openers_only stack" and pre: "\<forall>m \<in> set pass_errs. prefix ''SYNTAX_ERROR:'' m"
    by auto
  obtain msgs where un: "unclosed_errors stack = Inr msgs"
    "map entry_msg stack = map Some msgs" "\<forall>m \<in> set msgs. prefix ''SYNTAX_ERROR:'' m"
    using unclosed_errors_returns [OF inv] by blast
  have "validate_syntax code = Inr (pass_errs @ msgs)"
    using sc un(1) by (simp add: validate_syntax_def)
  with sc un inv pre show ?thesis by auto
qed

section \<open>The lines on the stack\<close>

lemma skip_string_line: "line \<le> snd (skip_string quote s line)"
proof (induction quote s line rule: skip_string.induct)
  case (1 quote line)
  show ?case by simp
next
  case (2 quote c rest line)
  let ?line' = "if c = newline then line + 1 else line"
  have le: "line \<le> ?line'" by simp
  show ?case
  proof (cases "c = backslash \<and> rest \<noteq> []")
    case True
    then have "?line' \<le> snd (skip_string quote (tl rest) ?line')"
      using "2.IH"(1) [of ?line'] by simp
    with True le show ?thesis by (auto simp: Let_def)
  next
    case False
    show ?thesis
    proof (cases "c = quote")
      case True
      with False show ?thesis by (auto simp: Let_def)
    next
      case no_quote: False
      then have "?line' \<le> snd (skip_string quote rest ?line')"
        using "2.IH"(2) [of ?line'] False by simp
      with False no_quote le show ?thesis by (auto simp: Let_def)
    qed
  qed
qed

lemma skip_block_comment_line: "line \<le> snd (skip_block_comment s line)"
proof (induction s line rule: skip_block_comment.induct)
  case (3 c d rest line)
  let ?line' = "if c = newline then line + 1 else line"
  show ?case
  proof (cases "c = CHR ''*'' \<and> d = CHR ''/''")
    case True
    then show ?thesis by (simp add: Let_def)
  next
    case False
    then have "?line' \<le> snd (skip_block_comment (d # rest) ?line')"
      using "3.IH" [of ?line'] by simp
    with False show ?thesis by (auto simp: Let_def)
  qed
qed simp_all

lemma lines_ok_mono: "lines_ok line stack \<Longrightarrow> line \<le> line' \<Longrightarrow> lines_ok line' stack"
  by (fastforce simp: lines_ok_def)

lemma lines_ok_butlast: "lines_ok line stack \<Longrightarrow> lines_ok line (butlast stack)"
proof -
  assume ok: "lines_ok line stack"
  have "sorted (take (length stack - 1) (map snd stack))"
    using ok by (simp add: lines_ok_def)
  then have "sorted (map snd (butlast stack))"
    by (simp add: butlast_conv_take take_map)
  moreover have "\<forall>e \<in> set (butlast stack). snd e \<le> line"
    using ok by (auto simp: lines_ok_def dest: in_set_butlastD)
  ultimately show ?thesis by (simp add: lines_ok_def)
qed

lemma lines_ok_push: "lines_ok line stack \<Longrightarrow> lines_ok line (stack @ [(ch, line)])"
  by (auto simp: lines_ok_def sorted_append)

lemma bracket_step_lines:
  "lines_ok line stack \<Longrightarrow> bracket_step ch line stack errs = Inr (stack', errs') \<Longrightarrow>
   lines_ok line stack'"
  by (auto simp: bracket_step_def lines_ok_butlast lines_ok_push
           split: if_splits sum.splits prod.splits)

lemma scan_lines:
  "lines_ok line stack \<Longrightarrow> scan s line stack errs = Inr (stack', errs') \<Longrightarrow>
   sorted (map snd stack')"
proof (induction s line stack errs rule: scan.induct)
  case (1 line stack errs)
  then show ?case by (simp add: scan.simps lines_ok_def)
next
  case (2 ch rest line stack errs)
  show ?case
  proof (cases "ch = newline")
    case True
    with 2 lines_ok_mono [of line stack "line + 1"] show ?thesis
      by (simp add: scan.simps)
  next
    case not_nl: False
    show ?thesis
    proof (cases "ch \<in> {apostrophe, double_quote, backtick}")
      case True
      with 2 not_nl lines_ok_mono [OF "2.prems"(1) skip_string_line [of line ch rest]]
      show ?thesis by (simp add: scan.simps(2))
    next
      case not_quote: False
      show ?thesis
      proof (cases "ch = CHR ''/'' \<and> rest \<noteq> [] \<and> hd rest = CHR ''/''")
        case True
        with 2 not_nl not_quote show ?thesis by (simp add: scan.simps(2))
      next
        case not_line: False
        show ?thesis
        proof (cases "ch = CHR ''/'' \<and> rest \<noteq> [] \<and> hd rest = CHR ''*''")
          case True
          with 2 not_nl not_quote not_line
            lines_ok_mono [OF "2.prems"(1) skip_block_comment_line [of line "tl rest"]]
          show ?thesis by (simp add: scan.simps(2))
        next
          case not_block: False
          obtain stack1 errs1 where step: "bracket_step ch line stack errs = Inr (stack1, errs1)"
            using bracket_step_returns [of stack ch line errs] "2.prems"(2)
              not_nl not_quote not_line not_block
            by (cases "bracket_step ch line stack errs") (auto simp add: scan.simps(2))
          have "scan rest line stack1 errs1 = Inr (stack', errs')"
            using "2.prems"(2) not_nl not_quote not_line not_block step
            by (auto simp add: scan.simps(2))
          with "2.IH"(5) [OF not_nl not_quote not_line not_block step refl
                 bracket_step_lines [OF "2.prems"(1) step]]
          show ?thesis by simp
        qed
      qed
    qed
  qed
qed


section \<open>The claims about the scanner\<close>

lemma closer_cases:
  "closers ch = Some expected \<Longrightarrow>
   (ch = CHR '')'' \<and> expected = CHR ''('') \<or> (ch = CHR ''}'' \<and> expected = CHR ''{'') \<or>
   (ch = CHR '']'' \<and> expected = CHR ''['')"
  by (auto simp: closers_def split: if_splits)

lemma scan_closer:
  assumes "closers ch = Some expected"
  shows "scan (ch # rest) line stack errs =
           (case bracket_step ch line stack errs of
              Inl e \<Rightarrow> Inl e
            | Inr (stack', errs') \<Rightarrow> scan rest line stack' errs')"
  using closer_cases [OF assms]
  by (auto simp: scan.simps(2) newline_def apostrophe_def double_quote_def backtick_def)

text \<open>
  The step of the main loop on a mismatched closer. When it reads, in code, a closing
  bracket \<open>ch\<close> while the stack is not empty and the opener on top of the stack is not the
  one \<open>ch\<close> closes, it appends exactly one message, removes the top entry and goes on
  with the rest of the text. The message cites the value \<open>line\<close> of the line counter for
  the closer, and the number recorded with the opener.
\<close>

lemma mismatched_closer_step:
  assumes "closers ch = Some expected" and "stack \<noteq> []"
    and "last stack = (opener_char, opener_line)" and "opener_char \<noteq> expected"
    and "openers_only stack"
  shows "\<exists>closer_name opener_name.
            bracket_names ch = Some closer_name \<and>
            bracket_names opener_char = Some opener_name \<and>
            bracket_step ch line stack errs =
              Inr (butlast stack,
                   errs @ [mismatch_msg closer_name line opener_name opener_line]) \<and>
            scan (ch # rest) line stack errs =
              scan rest line (butlast stack)
                (errs @ [mismatch_msg closer_name line opener_name opener_line])"
proof -
  obtain closer_name where cname: "bracket_names ch = Some closer_name"
    using closer_has_name [of ch] assms(1) by auto
  have "openers opener_char \<noteq> None"
    using openers_only_last [OF assms(5) assms(2)] assms(3) by simp
  then obtain opener_name where oname: "bracket_names opener_char = Some opener_name"
    using opener_has_name by blast
  have no_opener: "openers ch = None"
    using closer_cases [OF assms(1)] by (auto simp: openers_def)
  have step: "bracket_step ch line stack errs =
          Inr (butlast stack, errs @ [mismatch_msg closer_name line opener_name opener_line])"
    using assms(1-4) cname oname no_opener by (simp add: bracket_step_def lookup_def)
  then have "scan (ch # rest) line stack errs =
          scan rest line (butlast stack)
            (errs @ [mismatch_msg closer_name line opener_name opener_line])"
    by (simp add: scan_closer [OF assms(1)])
  with cname oname step show ?thesis by blast
qed

text \<open>
  Claim C2. The message for a mismatched closer is meant to cite the line of the closer.
  It cites the line counter, which misses a newline that follows a backslash inside a
  string literal. In the text \<^verbatim>\<open>(\<close>, \<^verbatim>\<open>'\\<close>, newline, \<^verbatim>\<open>'\<close>, \<^verbatim>\<open>]\<close> one newline
  comes before the closing bracket, which stands on line 2, and the one message of the
  scanner cites line 1 for it. With the newline outside a string literal the message
  cites line 2 for the closer and line 1 for the opener, and for the source \<^verbatim>\<open>( ]\<close> it
  cites line 1 for both.
\<close>

theorem mismatch_cites_wrong_closer_line:
  "validate_syntax (''('' @ [apostrophe, backslash, newline, apostrophe] @ '']'') =
     Inr [''SYNTAX_ERROR: Mismatched brackets '' @ dash @
          '' closing bracket ']' on line 1 does not match '' @
          ''opening parenthesis '(' opened on line 1.''] \<and>
   length (filter (\<lambda>c. c = newline)
             (''('' @ [apostrophe, backslash, newline, apostrophe])) = 1 \<and>
   validate_syntax (''('' @ [newline] @ '']'') =
     Inr [''SYNTAX_ERROR: Mismatched brackets '' @ dash @
          '' closing bracket ']' on line 2 does not match '' @
          ''opening parenthesis '(' opened on line 1.''] \<and>
   validate_syntax ''( ]'' =
     Inr [''SYNTAX_ERROR: Mismatched brackets '' @ dash @
          '' closing bracket ']' on line 1 does not match '' @
          ''opening parenthesis '(' opened on line 1.'']"
proof -
  have "validate_syntax (''('' @ [apostrophe, backslash, newline, apostrophe] @ '']'') =
     Inr [''SYNTAX_ERROR: Mismatched brackets '' @ dash @
          '' closing bracket ']' on line 1 does not match '' @
          ''opening parenthesis '(' opened on line 1.'']"
    by code_simp
  moreover have "length (filter (\<lambda>c. c = newline)
             (''('' @ [apostrophe, backslash, newline, apostrophe])) = 1"
    by (simp add: newline_def apostrophe_def backslash_def)
  moreover have "validate_syntax (''('' @ [newline] @ '']'') =
     Inr [''SYNTAX_ERROR: Mismatched brackets '' @ dash @
          '' closing bracket ']' on line 2 does not match '' @
          ''opening parenthesis '(' opened on line 1.'']"
    by code_simp
  moreover have "validate_syntax ''( ]'' =
     Inr [''SYNTAX_ERROR: Mismatched brackets '' @ dash @
          '' closing bracket ']' on line 1 does not match '' @
          ''opening parenthesis '(' opened on line 1.'']"
    by code_simp
  ultimately show ?thesis by blast
qed

text \<open>
  The end of the pass. The scanner always finishes with a stack and the errors of the
  pass, and the result of \<^verbatim>\<open>validate_syntax\<close> is those errors followed by one message
  for each entry left on the stack, read from the first (oldest) entry to the last: the
  message names the opener of the entry and the number recorded with it. The recorded
  numbers do not decrease along the stack.
\<close>

lemma unclosed_messages_in_stack_order:
  "\<exists>stack pass_errs msgs.
      scan code 1 [] [] = Inr (stack, pass_errs) \<and>
      validate_syntax code = Inr (pass_errs @ msgs) \<and>
      length msgs = length stack \<and>
      map entry_msg stack = map Some msgs \<and>
      sorted (map snd stack)"
proof -
  obtain stack pass_errs msgs where
    sc: "scan code 1 [] [] = Inr (stack, pass_errs)" and
    res: "validate_syntax code = Inr (pass_errs @ msgs)" and
    each: "map entry_msg stack = map Some msgs"
    using validate_syntax_returns [of code] by blast
  have "lines_ok 1 []" by (simp add: lines_ok_def)
  then have "sorted (map snd stack)" using sc by (rule scan_lines)
  moreover have "length msgs = length stack"
    using each by (metis length_map)
  ultimately show ?thesis using sc res each by blast
qed

text \<open>
  Claim C3. The message for an unclosed opener is meant to cite the line the opener was
  opened on. It cites the value the line counter had when the opener was pushed, and the
  counter misses a newline that follows a backslash inside a string literal. In the text
  \<^verbatim>\<open>'\\<close>, newline, \<^verbatim>\<open>'\<close>, \<^verbatim>\<open>{\<close> one newline comes before the opening brace, which
  stands on line 2, and the one message of the scanner says it was opened on line 1. With
  the newline outside a string literal the message says line 2. For the source
  \<^verbatim>\<open>{ { }\<close> the result is one message, for an opening brace opened on line 1; with a
  newline between the two opening braces it is still line 1, the line of the outer one.
\<close>

theorem unclosed_cites_wrong_opener_line:
  "validate_syntax ([apostrophe, backslash, newline, apostrophe] @ ''{'') =
     Inr [''SYNTAX_ERROR: Unclosed opening brace '{' opened on line 1 '' @ dash @
          '' missing closing '}'.''] \<and>
   length (filter (\<lambda>c. c = newline) [apostrophe, backslash, newline, apostrophe]) = 1 \<and>
   validate_syntax ([newline] @ ''{'') =
     Inr [''SYNTAX_ERROR: Unclosed opening brace '{' opened on line 2 '' @ dash @
          '' missing closing '}'.''] \<and>
   validate_syntax ''{ { }'' =
     Inr [''SYNTAX_ERROR: Unclosed opening brace '{' opened on line 1 '' @ dash @
          '' missing closing '}'.''] \<and>
   validate_syntax (''{'' @ [newline] @ ''{ }'') =
     Inr [''SYNTAX_ERROR: Unclosed opening brace '{' opened on line 1 '' @ dash @
          '' missing closing '}'.'']"
proof -
  have "validate_syntax ([apostrophe, backslash, newline, apostrophe] @ ''{'') =
     Inr [''SYNTAX_ERROR: Unclosed opening brace '{' opened on line 1 '' @ dash @
          '' missing closing '}'.'']"
    by code_simp
  moreover have
    "length (filter (\<lambda>c. c = newline) [apostrophe, backslash, newline, apostrophe]) = 1"
    by (simp add: newline_def apostrophe_def backslash_def)
  moreover have "validate_syntax ([newline] @ ''{'') =
     Inr [''SYNTAX_ERROR: Unclosed opening brace '{' opened on line 2 '' @ dash @
          '' missing closing '}'.'']"
    by code_simp
  moreover have "validate_syntax ''{ { }'' =
     Inr [''SYNTAX_ERROR: Unclosed opening brace '{' opened on line 1 '' @ dash @
          '' missing closing '}'.'']"
    by code_simp
  moreover have "validate_syntax (''{'' @ [newline] @ ''{ }'') =
     Inr [''SYNTAX_ERROR: Unclosed opening brace '{' opened on line 1 '' @ dash @
          '' missing closing '}'.'']"
    by code_simp
  ultimately show ?thesis by blast
qed

text \<open>
  Claim C4. The line counter is meant to count every newline of the text. Inside a string
  literal a backslash skips the character after it without looking at it, so a newline
  that follows a backslash is not counted: in the text of four characters \<^verbatim>\<open>'\\<close>,
  newline, \<^verbatim>\<open>'\<close> followed by a closing parenthesis, one newline comes before the
  parenthesis and the message reports it on line 1. Without the backslash the message says
  line 2.
\<close>

theorem escaped_newline_in_string_not_counted:
  "validate_syntax ([apostrophe, backslash, newline, apostrophe] @ '')'') =
     Inr [''SYNTAX_ERROR: Unexpected closing parenthesis ')' on line 1 '' @ dash @
          '' no matching opener exists. Check for an extra or misplaced ')'.''] \<and>
   length (filter (\<lambda>c. c = newline) [apostrophe, backslash, newline, apostrophe]) = 1 \<and>
   validate_syntax ([apostrophe, newline, apostrophe] @ '')'') =
     Inr [''SYNTAX_ERROR: Unexpected closing parenthesis ')' on line 2 '' @ dash @
          '' no matching opener exists. Check for an extra or misplaced ')'.'']"
proof -
  have "validate_syntax ([apostrophe, backslash, newline, apostrophe] @ '')'') =
     Inr [''SYNTAX_ERROR: Unexpected closing parenthesis ')' on line 1 '' @ dash @
          '' no matching opener exists. Check for an extra or misplaced ')'.'']"
    by code_simp
  moreover have "length (filter (\<lambda>c. c = newline) [apostrophe, backslash, newline, apostrophe]) = 1"
    by (simp add: newline_def apostrophe_def backslash_def)
  moreover have "validate_syntax ([apostrophe, newline, apostrophe] @ '')'') =
     Inr [''SYNTAX_ERROR: Unexpected closing parenthesis ')' on line 2 '' @ dash @
          '' no matching opener exists. Check for an extra or misplaced ')'.'']"
    by code_simp
  ultimately show ?thesis by blast
qed

section \<open>The colour checker\<close>

lemma tokens_get_Some: "tokens k = Some v \<Longrightarrow> tokens_get tokens k = Inr v"
  by (simp add: tokens_get_def lookup_def)

lemma tokens_get_None: "tokens k = None \<Longrightarrow> tokens_get tokens k = Inl (KeyError k)"
  by (simp add: tokens_get_def lookup_def)

lemma hex_loop_reported:
  "hex_loop approved primary secondary matches seen errs =
     errs @ map (\<lambda>m. hex_colour_msg m primary secondary) (reported_literals approved matches seen)"
  by (induction matches arbitrary: seen errs) (simp_all add: Let_def)

lemma named_loop_filter:
  "named_loop matches errs =
     errs @ map named_colour_msg (filter (\<lambda>g. str_lower g \<notin> set SAFE_CSS_KEYWORDS) matches)"
  by (induction matches arbitrary: errs) (simp_all add: Let_def)

lemma reported_literals_lowered:
  "distinct (map str_lower (reported_literals approved matches seen)) \<and>
   set (map str_lower (reported_literals approved matches seen)) =
     str_lower ` {m \<in> set matches. normalise_hex (str_lower m) \<notin> approved} - set seen"
proof (induction matches arbitrary: seen)
  case Nil
  show ?case by simp
next
  case (Cons m matches)
  show ?case
  proof (cases "normalise_hex (str_lower m) \<notin> approved \<and> str_lower m \<notin> set seen")
    case True
    with Cons [of "seen @ [str_lower m]"] show ?thesis by auto
  next
    case False
    with Cons [of seen] show ?thesis by auto
  qed
qed

lemma reported_literals_count:
  "length (reported_literals approved matches []) =
     card (str_lower ` {m \<in> set matches. normalise_hex (str_lower m) \<notin> approved})"
proof -
  have "length (reported_literals approved matches []) =
          length (map str_lower (reported_literals approved matches []))"
    by simp
  also have "\<dots> = card (set (map str_lower (reported_literals approved matches [])))"
    using reported_literals_lowered [of approved matches "[]"] distinct_card
    by metis
  also have "\<dots> = card (str_lower ` {m \<in> set matches. normalise_hex (str_lower m) \<notin> approved})"
    using reported_literals_lowered [of approved matches "[]"] by simp
  finally show ?thesis .
qed

lemma validate_colors_parts:
  assumes "tokens ''primary_color'' = Some primary"
    and "tokens ''secondary_color'' = Some secondary"
  shows "validate_colors code tokens =
     Inr ((if re_search True functional_pattern code
           then [colour_format_msg primary secondary] else []) @
          map (\<lambda>m. hex_colour_msg m primary secondary)
            (reported_literals (normalised_approved primary secondary)
               (map fst (finditer False hex_pattern code)) []) @
          map named_colour_msg
            (filter (\<lambda>g. str_lower g \<notin> set SAFE_CSS_KEYWORDS)
               (map (\<lambda>m. snd m ! 0) (finditer True named_pattern code))))"
  using assms
  by (simp add: validate_colors_def tokens_get_Some hex_loop_reported named_loop_filter Let_def)

lemma hex_prefix_format [simp]:
  "\<not> prefix ''UNAUTHORISED_HEX_COLOR:'' (colour_format_msg primary secondary)"
  by (simp add: colour_format_msg_def)

lemma hex_prefix_named [simp]:
  "\<not> prefix ''UNAUTHORISED_HEX_COLOR:'' (named_colour_msg name)"
  by (simp add: named_colour_msg_def)

lemma hex_prefix_hex [simp]:
  "prefix ''UNAUTHORISED_HEX_COLOR:'' (hex_colour_msg m primary secondary)"
  by (simp add: hex_colour_msg_def)

text \<open>
  Claim C5, as amended. The key of the deduplication is the lowered text of the match,
  \<^verbatim>\<open>match.group(0).lower()\<close>: for every source and every token set with the two
  colours, the number of \<^verbatim>\<open>UNAUTHORISED_HEX_COLOR\<close> diagnostics is the number of distinct
  lowered texts among the hex literals of the source whose normal form is not approved.
\<close>

theorem hex_diagnostic_per_lowered_literal:
  assumes "tokens ''primary_color'' = Some primary"
    and "tokens ''secondary_color'' = Some secondary"
  shows "\<exists>errs. validate_colors code tokens = Inr errs \<and>
     length (filter (prefix ''UNAUTHORISED_HEX_COLOR:'') errs) =
       card (str_lower ` {m \<in> set (map fst (finditer False hex_pattern code)).
                           normalise_hex (str_lower m) \<notin> normalised_approved primary secondary})"
proof -
  let ?reported = "reported_literals (normalised_approved primary secondary)
               (map fst (finditer False hex_pattern code)) []"
  let ?errs = "(if re_search True functional_pattern code
           then [colour_format_msg primary secondary] else []) @
          map (\<lambda>m. hex_colour_msg m primary secondary) ?reported @
          map named_colour_msg
            (filter (\<lambda>g. str_lower g \<notin> set SAFE_CSS_KEYWORDS)
               (map (\<lambda>m. snd m ! 0) (finditer True named_pattern code)))"
  have eq: "validate_colors code tokens = Inr ?errs"
    by (rule validate_colors_parts [OF assms])
  have "filter (prefix ''UNAUTHORISED_HEX_COLOR:'') ?errs =
          map (\<lambda>m. hex_colour_msg m primary secondary) ?reported"
    by (simp add: filter_map comp_def)
  then have "length (filter (prefix ''UNAUTHORISED_HEX_COLOR:'') ?errs) = length ?reported"
    by simp
  then have "length (filter (prefix ''UNAUTHORISED_HEX_COLOR:'') ?errs) =
       card (str_lower ` {m \<in> set (map fst (finditer False hex_pattern code)).
                           normalise_hex (str_lower m) \<notin> normalised_approved primary secondary})"
    by (simp only: reported_literals_count)
  with eq show ?thesis by blast
qed


text \<open>
  The source \<^verbatim>\<open>#ABC #abc\<close> holds both literals, neither is approved under the example
  tokens, and the checker gives one diagnostic, quoting the first of them as matched.
\<close>

theorem hex_dedup_by_raw_text_counterexample:
  "map fst (finditer False hex_pattern ''#ABC #abc'') = [''#ABC'', ''#abc''] \<and>
   normalise_hex (str_lower ''#ABC'') \<notin> normalised_approved ''#6366f1'' ''#a855f7'' \<and>
   normalise_hex (str_lower ''#abc'') \<notin> normalised_approved ''#6366f1'' ''#a855f7'' \<and>
   validate_colors ''#ABC #abc'' example_tokens =
     Inr [''UNAUTHORISED_HEX_COLOR: '#ABC' is not in the design system. '' @
          ''Approved hex values: #6366f1, #a855f7, #ffffff, #000000.'']"
proof -
  have "map fst (finditer False hex_pattern ''#ABC #abc'') = [''#ABC'', ''#abc'']"
    by code_simp
  moreover have "normalise_hex (str_lower ''#ABC'') \<notin> normalised_approved ''#6366f1'' ''#a855f7''"
    by code_simp
  moreover have "normalise_hex (str_lower ''#abc'') \<notin> normalised_approved ''#6366f1'' ''#a855f7''"
    by code_simp
  moreover have "validate_colors ''#ABC #abc'' example_tokens =
     Inr [''UNAUTHORISED_HEX_COLOR: '#ABC' is not in the design system. '' @
          ''Approved hex values: #6366f1, #a855f7, #ffffff, #000000.'']"
    by code_simp
  ultimately show ?thesis by blast
qed

text \<open>
  Three disallowed literals with two lowered texts give two diagnostics: \<^verbatim>\<open>#ABC\<close> and
  \<^verbatim>\<open>#abc\<close> share one, and \<^verbatim>\<open>#aabbcc\<close>, which has the same normal form, has its own.
\<close>

theorem hex_diagnostic_per_lowered_literal_witness:
  "example_tokens ''primary_color'' = Some ''#6366f1'' \<and>
   example_tokens ''secondary_color'' = Some ''#a855f7'' \<and>
   (\<exists>errs. validate_colors ''#ABC #abc #aabbcc #12'' example_tokens = Inr errs \<and>
      length (filter (prefix ''UNAUTHORISED_HEX_COLOR:'') errs) = 2)"
proof -
  let ?src = "''#ABC #abc #aabbcc #12''"
  have p: "example_tokens ''primary_color'' = Some ''#6366f1''"
    by (simp add: example_tokens_def)
  have s: "example_tokens ''secondary_color'' = Some ''#a855f7''"
    by (simp add: example_tokens_def)
  have m: "map fst (finditer False hex_pattern ?src) = [''#ABC'', ''#abc'', ''#aabbcc'']"
    by code_simp
  have a: "normalise_hex ''#abc'' \<notin> normalised_approved ''#6366f1'' ''#a855f7''"
    "normalise_hex ''#aabbcc'' \<notin> normalised_approved ''#6366f1'' ''#a855f7''"
    by code_simp+
  have l: "str_lower ''#ABC'' = ''#abc''" "str_lower ''#abc'' = ''#abc''"
    "str_lower ''#aabbcc'' = ''#aabbcc''"
    by code_simp+
  have "{m \<in> set (map fst (finditer False hex_pattern ?src)).
           normalise_hex (str_lower m) \<notin> normalised_approved ''#6366f1'' ''#a855f7''} =
        {''#ABC'', ''#abc'', ''#aabbcc''}"
    unfolding m using a l by auto
  then have "str_lower ` {m \<in> set (map fst (finditer False hex_pattern ?src)).
           normalise_hex (str_lower m) \<notin> normalised_approved ''#6366f1'' ''#a855f7''} =
        {''#abc'', ''#aabbcc''}"
    using l by auto
  then have "card (str_lower ` {m \<in> set (map fst (finditer False hex_pattern ?src)).
           normalise_hex (str_lower m) \<notin> normalised_approved ''#6366f1'' ''#a855f7''}) = 2"
    by simp
  then show ?thesis
    using hex_diagnostic_per_lowered_literal [OF p s, of ?src] p s by simp
qed

section \<open>Hex normalisation\<close>

lemma lower_char_idem: "lower_char (lower_char c) = lower_char c"
  by (auto simp: lower_char_def in_range_def)

lemma str_lower_idem: "str_lower (str_lower s) = str_lower s"
  by (simp add: str_lower_def lower_char_idem)

lemma length_str_lower: "length (str_lower s) = length s"
  by (simp add: str_lower_def)

lemma normalise_hex_short:
  "length x = 4 \<Longrightarrow>
   normalise_hex x = [CHR ''#'', lower_char (x ! 1), lower_char (x ! 1),
                      lower_char (x ! 2), lower_char (x ! 2),
                      lower_char (x ! 3), lower_char (x ! 3)]"
  by (simp add: normalise_hex_def Let_def str_lower_def)

lemma normalise_hex_other: "length x \<noteq> 4 \<Longrightarrow> normalise_hex x = str_lower x"
  by (simp add: normalise_hex_def Let_def str_lower_def)

lemma normalise_hex_idem: "normalise_hex (normalise_hex x) = normalise_hex x"
proof (cases "length x = 4")
  case True
  have "lower_char CHR ''#'' = CHR ''#''"
    by (simp add: lower_char_def in_range_def)
  then show ?thesis
    by (simp add: normalise_hex_short [OF True] normalise_hex_other str_lower_def lower_char_idem)
next
  case False
  then show ?thesis
    by (simp add: normalise_hex_other length_str_lower str_lower_idem)
qed

text \<open>
  Claim C6, as amended. Hex normalisation is idempotent and gives the same text for
  \<^verbatim>\<open>#fff\<close> and \<^verbatim>\<open>#ffffff\<close>. A text of four characters, such as a literal of three
  hex digits, becomes a hash sign and its three last characters, lowered and doubled. Any
  other text, such as a literal of four to eight hex digits, is only lowered and keeps its
  length.
\<close>

theorem normalise_hex_idempotent_expands_shorthand:
  "normalise_hex (normalise_hex x) = normalise_hex x \<and>
   normalise_hex ''#fff'' = normalise_hex ''#ffffff'' \<and>
   (length x = 4 \<longrightarrow>
      normalise_hex x = [CHR ''#'', lower_char (x ! 1), lower_char (x ! 1),
                         lower_char (x ! 2), lower_char (x ! 2),
                         lower_char (x ! 3), lower_char (x ! 3)]) \<and>
   (length x \<noteq> 4 \<longrightarrow> normalise_hex x = str_lower x \<and> length (normalise_hex x) = length x)"
proof -
  have "normalise_hex ''#fff'' = normalise_hex ''#ffffff''"
    by code_simp
  then show ?thesis
    using normalise_hex_idem normalise_hex_short normalise_hex_other length_str_lower
    by auto
qed

theorem normalise_hex_idempotent_expands_shorthand_witness:
  "length ''#AbC'' = 4 \<and> normalise_hex ''#AbC'' = ''#aabbcc'' \<and>
   length ''#A1B2C3'' \<noteq> 4 \<and> normalise_hex ''#A1B2C3'' = ''#a1b2c3'' \<and>
   normalise_hex (normalise_hex ''#AbC'') = normalise_hex ''#AbC''"
proof -
  have l: "lower_char CHR ''A'' = CHR ''a''" "lower_char CHR ''b'' = CHR ''b''"
    "lower_char CHR ''C'' = CHR ''c''" "str_lower ''#A1B2C3'' = ''#a1b2c3''"
    by code_simp+
  have len3: "length ''#AbC'' = 4" by simp
  have len6: "length ''#A1B2C3'' \<noteq> 4" by simp
  have idem: "normalise_hex (normalise_hex ''#AbC'') = normalise_hex ''#AbC''"
    using normalise_hex_idempotent_expands_shorthand [of "''#AbC''"] by blast
  have "normalise_hex ''#AbC'' =
          [CHR ''#'', lower_char (''#AbC'' ! 1), lower_char (''#AbC'' ! 1),
           lower_char (''#AbC'' ! 2), lower_char (''#AbC'' ! 2),
           lower_char (''#AbC'' ! 3), lower_char (''#AbC'' ! 3)]"
    using normalise_hex_idempotent_expands_shorthand [of "''#AbC''"] len3 by blast
  then have short: "normalise_hex ''#AbC'' = ''#aabbcc''"
    using l by simp
  have "normalise_hex ''#A1B2C3'' = str_lower ''#A1B2C3''"
    using normalise_hex_idempotent_expands_shorthand [of "''#A1B2C3''"] len6 by blast
  then have long: "normalise_hex ''#A1B2C3'' = ''#a1b2c3''"
    using l by simp
  from len3 len6 idem short long show ?thesis by blast
qed

text \<open>
  The literal \<^verbatim>\<open>#ABCD\<close> is matched in a source and its normal form has four digits.
\<close>

theorem normalise_hex_six_digit_form_counterexample:
  "map fst (finditer False hex_pattern ''color: #ABCD;'') = [''#ABCD''] \<and>
   normalise_hex ''#ABCD'' = ''#abcd'' \<and> length (normalise_hex ''#ABCD'') \<noteq> 7"
proof -
  have "map fst (finditer False hex_pattern ''color: #ABCD;'') = [''#ABCD'']"
    by code_simp
  moreover have "normalise_hex ''#ABCD'' = ''#abcd''"
    by code_simp
  ultimately show ?thesis by simp
qed

section \<open>The report\<close>

lemma tagged_messages:
  "tagged (missing_primary_msg p)" "tagged (missing_radius_msg r)" "tagged (missing_font_msg f)"
  "tagged (colour_format_msg p s)" "tagged (hex_colour_msg m p s)" "tagged (named_colour_msg n)"
  "tagged missing_decorator_msg" "tagged missing_class_msg" "tagged truncated_msg"
  "tagged no_member_msg"
  by (simp_all add: tagged_def error_tags_def missing_primary_msg_def missing_radius_msg_def
        missing_font_msg_def colour_format_msg_def hex_colour_msg_def named_colour_msg_def
        missing_decorator_msg_def missing_class_msg_def truncated_msg_def no_member_msg_def)

lemma tagged_syntax: "prefix ''SYNTAX_ERROR:'' m \<Longrightarrow> tagged m"
  by (simp add: tagged_def error_tags_def)

lemma validate_design_tokens_parts:
  assumes "tokens ''primary_color'' = Some primary"
    and "tokens ''border_radius'' = Some radius"
    and "tokens ''font_family'' = Some font"
  shows "validate_design_tokens code tokens =
     Inr ((if \<not> sublist (str_lower primary) (str_lower code)
           then [missing_primary_msg primary] else []) @
          (if \<not> sublist radius code then [missing_radius_msg radius] else []) @
          (if \<not> sublist (str_lower font) (str_lower code)
           then [missing_font_msg font] else []))"
  using assms by (simp add: validate_design_tokens_def tokens_get_Some Let_def)

lemma validate_design_tokens_returns:
  assumes "tokens ''primary_color'' = Some primary"
    and "tokens ''border_radius'' = Some radius"
    and "tokens ''font_family'' = Some font"
  shows "\<exists>errs. validate_design_tokens code tokens = Inr errs \<and> (\<forall>m \<in> set errs. tagged m)"
  using assms
  by (auto simp add: validate_design_tokens_def tokens_get_Some Let_def tagged_messages)

lemma validate_colors_returns:
  assumes "tokens ''primary_color'' = Some primary"
    and "tokens ''secondary_color'' = Some secondary"
  shows "\<exists>errs. validate_colors code tokens = Inr errs \<and> (\<forall>m \<in> set errs. tagged m)"
  by (auto simp add: validate_colors_parts [OF assms] tagged_messages)

lemma validate_structure_tagged: "\<forall>m \<in> set (validate_structure code). tagged m"
  by (auto simp add: validate_structure_def Let_def tagged_messages)

lemma validate_syntax_tagged:
  "\<exists>errs. validate_syntax code = Inr errs \<and> (\<forall>m \<in> set errs. tagged m)"
  using validate_syntax_returns [of code] tagged_syntax by blast

lemma warn_spacing_token_tagged:
  "\<forall>w \<in> set (warn_spacing_token code tokens). prefix ''SPACING_SUGGESTION:'' w"
  by (simp add: warn_spacing_token_def Let_def spacing_msg_def)

lemma validate_component_parts:
  assumes "validate_design_tokens code tokens = Inr token_errs"
    and "validate_colors code tokens = Inr colour_errs"
    and "validate_syntax code = Inr syntax_errs"
  shows "validate_component code tokens =
     Inr \<lparr>is_valid = (token_errs @ colour_errs @ validate_structure code @ syntax_errs = []),
          errors = token_errs @ colour_errs @ validate_structure code @ syntax_errs,
          warnings = warn_spacing_token code tokens\<rparr>"
  using assms by (simp add: validate_component_def Let_def)

lemma required_keys_present:
  assumes "set required_keys \<subseteq> dom tokens"
  shows "\<exists>primary secondary radius font spacing.
     tokens ''primary_color'' = Some primary \<and> tokens ''secondary_color'' = Some secondary \<and>
     tokens ''border_radius'' = Some radius \<and> tokens ''font_family'' = Some font \<and>
     tokens ''spacing'' = Some spacing"
  using assms by (auto simp: required_keys_def)


lemma validate_component_returns:
  assumes "tokens ''primary_color'' = Some primary"
    and "tokens ''secondary_color'' = Some secondary"
    and "tokens ''border_radius'' = Some radius"
    and "tokens ''font_family'' = Some font"
  shows "\<exists>token_errs colour_errs syntax_errs.
     validate_design_tokens code tokens = Inr token_errs \<and>
     validate_colors code tokens = Inr colour_errs \<and>
     validate_syntax code = Inr syntax_errs \<and>
     (\<forall>m \<in> set (token_errs @ colour_errs @ validate_structure code @ syntax_errs). tagged m) \<and>
     validate_component code tokens =
       Inr \<lparr>is_valid = (token_errs @ colour_errs @ validate_structure code @ syntax_errs = []),
            errors = token_errs @ colour_errs @ validate_structure code @ syntax_errs,
            warnings = warn_spacing_token code tokens\<rparr>"
proof -
  obtain token_errs where t: "validate_design_tokens code tokens = Inr token_errs"
    "\<forall>m \<in> set token_errs. tagged m"
    using validate_design_tokens_returns [OF assms(1,3,4)] by blast
  obtain colour_errs where c: "validate_colors code tokens = Inr colour_errs"
    "\<forall>m \<in> set colour_errs. tagged m"
    using validate_colors_returns [OF assms(1,2)] by blast
  obtain syntax_errs where y: "validate_syntax code = Inr syntax_errs"
    "\<forall>m \<in> set syntax_errs. tagged m"
    using validate_syntax_tagged by blast
  have "\<forall>m \<in> set (token_errs @ colour_errs @ validate_structure code @ syntax_errs). tagged m"
    using t(2) c(2) y(2) validate_structure_tagged [of code] by auto
  with t(1) c(1) y(1) validate_component_parts [OF t(1) c(1) y(1)] show ?thesis
    by blast
qed

text \<open>
  Claim C1. For every source and every token set with the five keys, the validator returns
  a report in which \<open>is_valid\<close> holds exactly when the list of errors is empty. The
  warnings have no part in it: they come from the spacing token alone, and whatever value
  that token has, the errors and \<open>is_valid\<close> of the report are the same.
\<close>

theorem is_valid_iff_no_errors:
  assumes "set required_keys \<subseteq> dom tokens"
  shows "\<exists>r. validate_component code tokens = Inr r \<and>
           is_valid r = (errors r = []) \<and>
           (\<forall>spacing. \<exists>r'. validate_component code (tokens(''spacing'' \<mapsto> spacing)) = Inr r' \<and>
                          errors r' = errors r \<and> is_valid r' = is_valid r)"
proof -
  obtain primary secondary radius font where
    k: "tokens ''primary_color'' = Some primary" "tokens ''secondary_color'' = Some secondary"
       "tokens ''border_radius'' = Some radius" "tokens ''font_family'' = Some font"
    using required_keys_present [OF assms] by blast
  obtain token_errs colour_errs syntax_errs where
    t: "validate_design_tokens code tokens = Inr token_errs" and
    c: "validate_colors code tokens = Inr colour_errs" and
    y: "validate_syntax code = Inr syntax_errs"
    using validate_component_returns [OF k] by blast
  let ?errs = "token_errs @ colour_errs @ validate_structure code @ syntax_errs"
  have r: "validate_component code tokens =
       Inr \<lparr>is_valid = (?errs = []), errors = ?errs, warnings = warn_spacing_token code tokens\<rparr>"
    by (rule validate_component_parts [OF t c y])
  have "\<exists>r'. validate_component code (tokens(''spacing'' \<mapsto> spacing)) = Inr r' \<and>
              errors r' = ?errs \<and> is_valid r' = (?errs = [])" for spacing
  proof -
    let ?tokens' = "tokens(''spacing'' \<mapsto> spacing)"
    have k': "?tokens' ''primary_color'' = Some primary"
      "?tokens' ''secondary_color'' = Some secondary"
      "?tokens' ''border_radius'' = Some radius" "?tokens' ''font_family'' = Some font"
      using k by simp_all
    have "validate_design_tokens code ?tokens' = validate_design_tokens code tokens"
      by (simp only: validate_design_tokens_parts [OF k(1,3,4)]
            validate_design_tokens_parts [OF k'(1,3,4)])
    with t have t': "validate_design_tokens code ?tokens' = Inr token_errs"
      by (simp only:)
    have "validate_colors code ?tokens' = validate_colors code tokens"
      by (simp only: validate_colors_parts [OF k(1,2)] validate_colors_parts [OF k'(1,2)])
    with c have c': "validate_colors code ?tokens' = Inr colour_errs"
      by (simp only:)
    show ?thesis
      by (simp add: validate_component_parts [OF t' c' y])
  qed
  with r show ?thesis by simp
qed

theorem is_valid_iff_no_errors_witness:
  "set required_keys \<subseteq> dom example_tokens \<and>
   (\<exists>r. validate_component ''x'' example_tokens = Inr r \<and> is_valid r = (errors r = []))"
proof -
  have h: "set required_keys \<subseteq> dom example_tokens"
    by (simp add: required_keys_def example_tokens_def)
  from is_valid_iff_no_errors [OF h, of "''x''"] h show ?thesis by blast
qed

text \<open>
  Claim C7. For every source and every token set with the five keys, the errors of the
  report are the diagnostics of the token-presence checker, then those of the colour
  checker, then those of the structural checker, then those of the syntax checker, each
  list as its checker returned it.
\<close>

theorem errors_in_checker_order:
  assumes "set required_keys \<subseteq> dom tokens"
  shows "\<exists>token_errs colour_errs syntax_errs r.
     validate_design_tokens code tokens = Inr token_errs \<and>
     validate_colors code tokens = Inr colour_errs \<and>
     validate_syntax code = Inr syntax_errs \<and>
     validate_component code tokens = Inr r \<and>
     errors r = token_errs @ colour_errs @ validate_structure code @ syntax_errs"
proof -
  obtain primary secondary radius font where
    k: "tokens ''primary_color'' = Some primary" "tokens ''secondary_color'' = Some secondary"
       "tokens ''border_radius'' = Some radius" "tokens ''font_family'' = Some font"
    using required_keys_present [OF assms] by blast
  obtain token_errs colour_errs syntax_errs where
    t: "validate_design_tokens code tokens = Inr token_errs" and
    c: "validate_colors code tokens = Inr colour_errs" and
    y: "validate_syntax code = Inr syntax_errs"
    using validate_component_returns [OF k] by blast
  show ?thesis
    using t c y by (simp add: validate_component_parts [OF t c y])
qed

theorem errors_in_checker_order_witness:
  "set required_keys \<subseteq> dom example_tokens \<and>
   (\<exists>token_errs colour_errs syntax_errs r.
     validate_design_tokens ''x'' example_tokens = Inr token_errs \<and>
     validate_colors ''x'' example_tokens = Inr colour_errs \<and>
     validate_syntax ''x'' = Inr syntax_errs \<and>
     validate_component ''x'' example_tokens = Inr r \<and>
     errors r = token_errs @ colour_errs @ validate_structure ''x'' @ syntax_errs)"
proof -
  have h: "set required_keys \<subseteq> dom example_tokens"
    by (simp add: required_keys_def example_tokens_def)
  from errors_in_checker_order [OF h, of "''x''"] h show ?thesis by blast
qed



text \<open>
  Claim C10. For every source and every token set with the five keys, every error of the
  report begins with one of the eight category tags followed by a colon, and every
  warning begins with \<^verbatim>\<open>SPACING_SUGGESTION:\<close>.
\<close>

theorem diagnostics_carry_category_tag:
  assumes "set required_keys \<subseteq> dom tokens"
  shows "\<exists>r. validate_component code tokens = Inr r \<and>
           (\<forall>m \<in> set (errors r). tagged m) \<and>
           (\<forall>w \<in> set (warnings r). prefix ''SPACING_SUGGESTION:'' w)"
proof -
  obtain primary secondary radius font where
    k: "tokens ''primary_color'' = Some primary" "tokens ''secondary_color'' = Some secondary"
       "tokens ''border_radius'' = Some radius" "tokens ''font_family'' = Some font"
    using required_keys_present [OF assms] by blast
  obtain token_errs colour_errs syntax_errs where
    tg: "\<forall>m \<in> set (token_errs @ colour_errs @ validate_structure code @ syntax_errs). tagged m"
    and r: "validate_component code tokens =
       Inr \<lparr>is_valid = (token_errs @ colour_errs @ validate_structure code @ syntax_errs = []),
            errors = token_errs @ colour_errs @ validate_structure code @ syntax_errs,
            warnings = warn_spacing_token code tokens\<rparr>"
    using validate_component_returns [OF k, of code] by blast
  show ?thesis
    using r tg warn_spacing_token_tagged [of code tokens] by simp
qed


theorem diagnostics_carry_category_tag_witness:
  "set required_keys \<subseteq> dom example_tokens \<and>
   validate_component ''x)'' example_tokens =
     Inr \<lparr>is_valid = False,
          errors = [missing_primary_msg ''#6366f1'', missing_radius_msg ''8px'',
                    missing_font_msg ''Inter'', missing_decorator_msg, missing_class_msg,
                    truncated_msg,
                    unexpected_msg (''closing parenthesis '' @ [apostrophe, CHR '')'', apostrophe])
                      1 CHR '')''],
          warnings = [spacing_msg ''16px'']\<rparr> \<and>
   list_all tagged
     [missing_primary_msg ''#6366f1'', missing_radius_msg ''8px'',
      missing_font_msg ''Inter'', missing_decorator_msg, missing_class_msg,
      truncated_msg,
      unexpected_msg (''closing parenthesis '' @ [apostrophe, CHR '')'', apostrophe])
        1 CHR '')''] \<and>
   prefix ''SPACING_SUGGESTION:'' (spacing_msg ''16px'')"
proof -
  have h: "set required_keys \<subseteq> dom example_tokens"
    by (simp add: required_keys_def example_tokens_def)
  have v: "validate_component ''x)'' example_tokens =
     Inr \<lparr>is_valid = False,
          errors = [missing_primary_msg ''#6366f1'', missing_radius_msg ''8px'',
                    missing_font_msg ''Inter'', missing_decorator_msg, missing_class_msg,
                    truncated_msg,
                    unexpected_msg (''closing parenthesis '' @ [apostrophe, CHR '')'', apostrophe])
                      1 CHR '')''],
          warnings = [spacing_msg ''16px'']\<rparr>"
    by code_simp
  from diagnostics_carry_category_tag [OF h, of "''x)''"] h v show ?thesis
    by simp
qed

section \<open>Missing keys\<close>

lemma validate_design_tokens_missing:
  "tokens ''primary_color'' = None \<Longrightarrow>
     validate_design_tokens code tokens = Inl (KeyError ''primary_color'')"
  "tokens ''primary_color'' = Some primary \<Longrightarrow> tokens ''border_radius'' = None \<Longrightarrow>
     validate_design_tokens code tokens = Inl (KeyError ''border_radius'')"
  "tokens ''primary_color'' = Some primary \<Longrightarrow> tokens ''border_radius'' = Some radius \<Longrightarrow>
   tokens ''font_family'' = None \<Longrightarrow>
     validate_design_tokens code tokens = Inl (KeyError ''font_family'')"
  by (simp_all add: validate_design_tokens_def tokens_get_Some tokens_get_None Let_def)

lemma validate_colors_missing_secondary:
  "tokens ''primary_color'' = Some primary \<Longrightarrow> tokens ''secondary_color'' = None \<Longrightarrow>
     validate_colors code tokens = Inl (KeyError ''secondary_color'')"
  by (simp add: validate_colors_def tokens_get_Some tokens_get_None)

lemma validate_component_token_error:
  "validate_design_tokens code tokens = Inl e \<Longrightarrow> validate_component code tokens = Inl e"
  by (simp add: validate_component_def)

lemma validate_component_colour_error:
  "validate_design_tokens code tokens = Inr token_errs \<Longrightarrow>
   validate_colors code tokens = Inl e \<Longrightarrow> validate_component code tokens = Inl e"
  by (simp add: validate_component_def)

text \<open>
  Claim C9, as amended. A token set that lacks one of the four keys
  \<^verbatim>\<open>primary_color\<close>, \<^verbatim>\<open>secondary_color\<close>, \<^verbatim>\<open>border_radius\<close>, \<^verbatim>\<open>font_family\<close> makes
  the validator raise \<^verbatim>\<open>KeyError\<close> for a missing key, and no report is returned. The
  spacing token is read with \<^verbatim>\<open>tokens.get("spacing", "")\<close>: a token set that has the
  four keys and lacks \<^verbatim>\<open>spacing\<close> gets a report, with no warning.
\<close>

theorem missing_key_raises_except_spacing:
  "(tokens ''primary_color'' = None \<or> tokens ''secondary_color'' = None \<or>
    tokens ''border_radius'' = None \<or> tokens ''font_family'' = None \<longrightarrow>
      (\<exists>k. k \<in> {''primary_color'', ''secondary_color'', ''border_radius'', ''font_family''} \<and>
           tokens k = None \<and> validate_component code tokens = Inl (KeyError k))) \<and>
   (tokens ''primary_color'' \<noteq> None \<and> tokens ''secondary_color'' \<noteq> None \<and>
    tokens ''border_radius'' \<noteq> None \<and> tokens ''font_family'' \<noteq> None \<and>
    tokens ''spacing'' = None \<longrightarrow>
      (\<exists>r. validate_component code tokens = Inr r \<and> warnings r = []))"
proof (intro conjI impI)
  assume missing: "tokens ''primary_color'' = None \<or> tokens ''secondary_color'' = None \<or>
    tokens ''border_radius'' = None \<or> tokens ''font_family'' = None"
  show "\<exists>k. k \<in> {''primary_color'', ''secondary_color'', ''border_radius'', ''font_family''} \<and>
           tokens k = None \<and> validate_component code tokens = Inl (KeyError k)"
  proof (cases "tokens ''primary_color''")
    case None
    then have "validate_component code tokens = Inl (KeyError ''primary_color'')"
      by (simp add: validate_component_token_error validate_design_tokens_missing(1))
    with None show ?thesis by blast
  next
    case (Some primary)
    note p = this
    show ?thesis
    proof (cases "tokens ''border_radius''")
      case None
      with p have "validate_component code tokens = Inl (KeyError ''border_radius'')"
        by (simp add: validate_component_token_error validate_design_tokens_missing(2))
      with None show ?thesis by blast
    next
      case (Some radius)
      note r = this
      show ?thesis
      proof (cases "tokens ''font_family''")
        case None
        with p r have "validate_component code tokens = Inl (KeyError ''font_family'')"
          by (simp add: validate_component_token_error validate_design_tokens_missing(3))
        with None show ?thesis by blast
      next
        case (Some font)
        with missing p r have s: "tokens ''secondary_color'' = None" by simp
        have "validate_design_tokens code tokens =
                Inr ((if \<not> sublist (str_lower primary) (str_lower code)
                      then [missing_primary_msg primary] else []) @
                     (if \<not> sublist radius code then [missing_radius_msg radius] else []) @
                     (if \<not> sublist (str_lower font) (str_lower code)
                      then [missing_font_msg font] else []))"
          using p r Some by (simp add: validate_design_tokens_parts)
        moreover have "validate_colors code tokens = Inl (KeyError ''secondary_color'')"
          using p s by (simp add: validate_colors_missing_secondary)
        ultimately have "validate_component code tokens = Inl (KeyError ''secondary_color'')"
          by (rule validate_component_colour_error)
        with s show ?thesis by blast
      qed
    qed
  qed
next
  assume present: "tokens ''primary_color'' \<noteq> None \<and> tokens ''secondary_color'' \<noteq> None \<and>
    tokens ''border_radius'' \<noteq> None \<and> tokens ''font_family'' \<noteq> None \<and>
    tokens ''spacing'' = None"
  then obtain primary secondary radius font where
    k: "tokens ''primary_color'' = Some primary" "tokens ''secondary_color'' = Some secondary"
       "tokens ''border_radius'' = Some radius" "tokens ''font_family'' = Some font"
    by auto
  have "warn_spacing_token code tokens = []"
    using present by (simp add: warn_spacing_token_def)
  then show "\<exists>r. validate_component code tokens = Inr r \<and> warnings r = []"
    using validate_component_returns [OF k, of code] by auto
qed

theorem missing_key_raises_except_spacing_witness:
  "(Map.empty :: tokens) ''primary_color'' = None \<and>
   validate_component compliant_source Map.empty = Inl (KeyError ''primary_color'') \<and>
   tokens_without_spacing ''primary_color'' \<noteq> None \<and>
   tokens_without_spacing ''secondary_color'' \<noteq> None \<and>
   tokens_without_spacing ''border_radius'' \<noteq> None \<and>
   tokens_without_spacing ''font_family'' \<noteq> None \<and>
   tokens_without_spacing ''spacing'' = None \<and>
   (\<exists>r. validate_component ''x'' tokens_without_spacing = Inr r \<and> warnings r = [])"
proof -
  have e: "(Map.empty :: tokens) ''primary_color'' = None" by simp
  obtain k where "(Map.empty :: tokens) k = None"
    and "validate_component compliant_source Map.empty = Inl (KeyError k)"
    using missing_key_raises_except_spacing [of Map.empty compliant_source] by auto
  moreover have "validate_component compliant_source Map.empty = Inl (KeyError ''primary_color'')"
    by (simp add: validate_component_def validate_design_tokens_def tokens_get_None)
  moreover have p: "tokens_without_spacing ''primary_color'' \<noteq> None"
    "tokens_without_spacing ''secondary_color'' \<noteq> None"
    "tokens_without_spacing ''border_radius'' \<noteq> None"
    "tokens_without_spacing ''font_family'' \<noteq> None"
    "tokens_without_spacing ''spacing'' = None"
    by (simp_all add: tokens_without_spacing_def)
  ultimately show ?thesis
    using missing_key_raises_except_spacing [of tokens_without_spacing "''x''"] e by blast
qed

text \<open>
  A token set without \<^verbatim>\<open>spacing\<close> and a source that passes every check: the validator
  returns a report.
\<close>

theorem missing_spacing_raises_counterexample:
  "tokens_without_spacing ''spacing'' = None \<and>
   validate_component compliant_source tokens_without_spacing =
     Inr \<lparr>is_valid = True, errors = [], warnings = []\<rparr>"
proof -
  have "tokens_without_spacing ''spacing'' = None"
    by (simp add: tokens_without_spacing_def)
  moreover have "validate_component compliant_source tokens_without_spacing =
     Inr \<lparr>is_valid = True, errors = [], warnings = []\<rparr>"
    by code_simp
  ultimately show ?thesis by blast
qed


end
